theory Spec2Isabelle
  imports Main "HOL-Library.Char_ord" "HOL-Library.List_Lexorder"
begin

unbundle bit_operations_syntax

section \<open>Python values\<close>

text \<open>
  The builder and the plugin are dynamically typed: the same attribute holds a dict in
  one place and a list in another, and several of the properties below turn on which
  kind of value reaches a comparison, a subscript or an attribute access. Values are
  therefore one datatype: the JSON values of a raw record (without floats), tuples, and
  the named tuples \<open>Link\<close> and \<open>Network\<close> (type name and ordered fields).
  A record (JSON object, keyword arguments) has string keys and keeps insertion order.
\<close>

datatype pyval =
    PNone
  | PBool bool
  | PInt int
  | PStr string
  | PList "pyval list"
  | PTuple "pyval list"
  | PDict "(string \<times> pyval) list"
  | PNamed string "(string \<times> pyval) list"

type_synonym pyrecord = "(string \<times> pyval) list"

text \<open>The exceptions the modelled code raises or lets through.\<close>

datatype error =
    NetworkDetailsError
  | CloudbaseInitException
  | KeyError
  | TypeError
  | AttributeError
  | ValueError

text \<open>
  Python's \<open>==\<close>: \<open>True == 1\<close>, a named tuple equals the plain tuple of its values,
  two dicts are equal when they hold the same items in any order. \<open>canon\<close> maps a value
  to a representative of its equality class.
\<close>

primrec canon :: "pyval \<Rightarrow> pyval" where
  "canon PNone = PNone"
| "canon (PBool b) = PInt (if b then 1 else 0)"
| "canon (PInt i) = PInt i"
| "canon (PStr s) = PStr s"
| "canon (PList xs) = PList (map canon xs)"
| "canon (PTuple xs) = PTuple (map canon xs)"
| "canon (PDict kvs) = PDict (sort_key fst (map (map_prod id canon) kvs))"
| "canon (PNamed n fs) = PTuple (map snd (map (map_prod id canon) fs))"

definition py_eq :: "pyval \<Rightarrow> pyval \<Rightarrow> bool" where
  "py_eq a b = (canon a = canon b)"

text \<open>\<open>hash(v)\<close> succeeds: lists and dicts are unhashable, a tuple is hashable when
  its items are.\<close>

primrec hashable :: "pyval \<Rightarrow> bool" where
  "hashable PNone = True"
| "hashable (PBool b) = True"
| "hashable (PInt i) = True"
| "hashable (PStr s) = True"
| "hashable (PList xs) = False"
| "hashable (PTuple xs) = list_all id (map hashable xs)"
| "hashable (PDict kvs) = False"
| "hashable (PNamed n fs) = list_all id (map snd (map (map_prod id hashable) fs))"

text \<open>Truth value of a value in a condition (\<open>if v:\<close>, \<open>not v\<close>).\<close>

fun py_truthy :: "pyval \<Rightarrow> bool" where
  "py_truthy PNone = False"
| "py_truthy (PBool b) = b"
| "py_truthy (PInt i) = (i \<noteq> 0)"
| "py_truthy (PStr s) = (s \<noteq> [])"
| "py_truthy (PList xs) = (xs \<noteq> [])"
| "py_truthy (PTuple xs) = (xs \<noteq> [])"
| "py_truthy (PDict kvs) = (kvs \<noteq> [])"
| "py_truthy (PNamed n fs) = (fs \<noteq> [])"

text \<open>\<open>v[key]\<close> with a string key: only a dict can be subscripted by a string.\<close>

fun py_getitem :: "pyval \<Rightarrow> string \<Rightarrow> error + pyval" where
  "py_getitem (PDict kvs) key =
     (case map_of kvs key of None \<Rightarrow> Inl KeyError | Some v \<Rightarrow> Inr v)"
| "py_getitem v key = Inl TypeError"

text \<open>\<open>v.attr\<close>: among the values here only a named tuple has the attributes the code
  reads (\<open>id\<close>, \<open>name\<close>, \<open>type\<close>, \<open>mac_address\<close>, \<open>version\<close>, ...).\<close>

fun py_getattr :: "pyval \<Rightarrow> string \<Rightarrow> error + pyval" where
  "py_getattr (PNamed n fs) attr =
     (case map_of fs attr of None \<Rightarrow> Inl AttributeError | Some v \<Rightarrow> Inr v)"
| "py_getattr v attr = Inl AttributeError"

text \<open>\<open>for x in v\<close>: the items of a list or tuple, the keys of a dict, the characters
  of a string; \<open>None\<close>, booleans and integers are not iterable.\<close>

fun py_iter :: "pyval \<Rightarrow> error + pyval list" where
  "py_iter (PList xs) = Inr xs"
| "py_iter (PTuple xs) = Inr xs"
| "py_iter (PNamed n fs) = Inr (map snd fs)"
| "py_iter (PDict kvs) = Inr (map (\<lambda>kv. PStr (fst kv)) kvs)"
| "py_iter (PStr s) = Inr (map (\<lambda>c. PStr [c]) s)"
| "py_iter v = Inl TypeError"

subsection \<open>Records: dicts with string keys\<close>

text \<open>\<open>d[key] = v\<close> keeps the position of a key already present and appends a new
  one; \<open>d.update(e)\<close> stores the items of \<open>e\<close> in their order.\<close>

fun record_store :: "(string \<times> 'v) list \<Rightarrow> string \<Rightarrow> 'v \<Rightarrow> (string \<times> 'v) list" where
  "record_store [] key v = [(key, v)]"
| "record_store ((k, w) # d) key v =
     (if k = key then (k, v) # d else (k, w) # record_store d key v)"

fun record_update :: "(string \<times> 'v) list \<Rightarrow> (string \<times> 'v) list \<Rightarrow> (string \<times> 'v) list" where
  "record_update d [] = d"
| "record_update d ((k, v) # e) = record_update (record_store d k v) e"

subsection \<open>Dicts with arbitrary keys\<close>

text \<open>
  The dicts the builder indexes by link or network id. A key is found by \<open>==\<close>; an
  unhashable key raises \<open>TypeError\<close>. Insertion order is kept (it is arbitrary before
  Python 3.7; nothing below depends on which order \<open>keys()\<close> has).
\<close>

type_synonym 'v pydict = "(pyval \<times> 'v) list"

fun dict_lookup :: "'v pydict \<Rightarrow> pyval \<Rightarrow> 'v option" where
  "dict_lookup [] key = None"
| "dict_lookup ((k, v) # d) key = (if py_eq k key then Some v else dict_lookup d key)"

fun dict_store :: "'v pydict \<Rightarrow> pyval \<Rightarrow> 'v \<Rightarrow> 'v pydict" where
  "dict_store [] key v = [(key, v)]"
| "dict_store ((k, w) # d) key v =
     (if py_eq k key then (k, v) # d else (k, w) # dict_store d key v)"

fun dict_remove :: "'v pydict \<Rightarrow> pyval \<Rightarrow> 'v pydict" where
  "dict_remove [] key = []"
| "dict_remove ((k, w) # d) key = (if py_eq k key then d else (k, w) # dict_remove d key)"

definition dict_keys :: "'v pydict \<Rightarrow> pyval list" where
  "dict_keys d = map fst d"

text \<open>\<open>d.get(key)\<close>: \<open>None\<close> when the key is absent.\<close>

definition dict_get :: "pyval pydict \<Rightarrow> pyval \<Rightarrow> error + pyval" where
  "dict_get d key =
     (if \<not> hashable key then Inl TypeError
      else case dict_lookup d key of None \<Rightarrow> Inr PNone | Some v \<Rightarrow> Inr v)"

text \<open>\<open>d[key] = v\<close>.\<close>

definition dict_setitem :: "'v pydict \<Rightarrow> pyval \<Rightarrow> 'v \<Rightarrow> error + 'v pydict" where
  "dict_setitem d key v = (if \<not> hashable key then Inl TypeError else Inr (dict_store d key v))"

section \<open>Field names and constants of \<open>basenetworkservice\<close>\<close>

abbreviation IPV4 :: pyval where "IPV4 \<equiv> PInt 4"
abbreviation IPV6 :: pyval where "IPV6 \<equiv> PInt 6"

abbreviation PHY :: pyval where "PHY \<equiv> PStr ''phy''"

abbreviation ASSIGNED_TO :: string where "ASSIGNED_TO \<equiv> ''assigned_to''"
abbreviation BOND_LINKS :: string where "BOND_LINKS \<equiv> ''bond_links''"
abbreviation BOND_MODE :: string where "BOND_MODE \<equiv> ''bond_mode''"
abbreviation BROADCAST :: string where "BROADCAST \<equiv> ''broadcast''"
abbreviation DNS :: string where "DNS \<equiv> ''dns_nameservers''"
abbreviation GATEWAY :: string where "GATEWAY \<equiv> ''gateway''"
abbreviation ID :: string where "ID \<equiv> ''id''"
abbreviation IP_ADDRESS :: string where "IP_ADDRESS \<equiv> ''ip_address''"
abbreviation NAME :: string where "NAME \<equiv> ''name''"
abbreviation MAC_ADDRESS :: string where "MAC_ADDRESS \<equiv> ''mac_address''"
abbreviation MTU :: string where "MTU \<equiv> ''mtu''"
abbreviation NETMASK :: string where "NETMASK \<equiv> ''netmask''"
abbreviation TYPE' :: string where "TYPE' \<equiv> ''type''"
abbreviation VERSION :: string where "VERSION \<equiv> ''version''"
abbreviation VLAN_ID :: string where "VLAN_ID \<equiv> ''vlan_id''"
abbreviation VLAN_LINK :: string where "VLAN_LINK \<equiv> ''vlan_link''"

section \<open>Field descriptors and field resolution\<close>

text \<open>
  \<open>_Field(name, alias=None, default=None, required=False, on_error=None)\<close>.
  \<open>alias\<close> is \<open>None\<close>, one string, or a list or tuple of strings. \<open>default\<close> is a
  value or a callable of no argument; a callable draws on a state \<open>'s\<close> (the clock
  behind \<open>uuid.uuid1()\<close>) and returns the new state with its value. \<open>on_error\<close> is
  called with the raw record and the partial result, which it may change, and answers
  whether resolution goes on.
\<close>

datatype alias_spec = NoAlias | Alias string | Aliases "string list"

datatype 's default = Value pyval | Producer "'s \<Rightarrow> pyval \<times> 's"

type_synonym 's hook = "pyrecord \<Rightarrow> pyrecord \<Rightarrow> 's \<Rightarrow> (bool \<times> pyrecord) \<times> 's"

record 's Field =
  field_name :: string
  field_alias :: alias_spec
  field_default :: "'s default"
  field_required :: bool
  field_on_error :: "'s hook option"

text \<open>The names \<open>_get_field\<close> tries, in order: the field's own name, then its
  aliases.\<close>

definition aliases :: "'s Field \<Rightarrow> string list" where
  "aliases field =
     field_name field #
       (case field_alias field of NoAlias \<Rightarrow> [] | Alias a \<Rightarrow> [a] | Aliases as \<Rightarrow> as)"

fun find_alias :: "string list \<Rightarrow> pyrecord \<Rightarrow> pyval option" where
  "find_alias [] raw_data = None"
| "find_alias (alias # rest) raw_data =
     (case map_of raw_data alias of
        Some v \<Rightarrow> Some v
      | None \<Rightarrow> find_alias rest raw_data)"

definition get_field ::
  "'s Field \<Rightarrow> pyrecord \<Rightarrow> 's \<Rightarrow> (error + string \<times> pyval) \<times> 's" where
  "get_field field raw_data s =
     (case find_alias (aliases field) raw_data of
        Some v \<Rightarrow> (Inr (field_name field, v), s)
      | None \<Rightarrow>
          if \<not> field_required field then
            (case field_default field of
               Producer produce \<Rightarrow>
                 (case produce s of (v, s') \<Rightarrow> (Inr (field_name field, v), s'))
             | Value v \<Rightarrow> (Inr (field_name field, v), s))
          else (Inl NetworkDetailsError, s))"

text \<open>
  \<open>_get_fields\<close>: the loop over the fields, with \<open>data\<close> the partial result. Only
  \<open>NetworkDetailsError\<close> is handled; the function returns \<open>None\<close> (here \<open>Inr None\<close>)
  when a field fails and no hook repairs it.
\<close>

fun get_fields_loop ::
  "'s Field list \<Rightarrow> pyrecord \<Rightarrow> pyrecord \<Rightarrow> 's \<Rightarrow> (error + pyrecord option) \<times> 's" where
  "get_fields_loop [] raw_data data s = (Inr (Some data), s)"
| "get_fields_loop (field # rest) raw_data data s =
     (case get_field field raw_data s of
        (Inr (name, field_value), s') \<Rightarrow>
          get_fields_loop rest raw_data (record_store data name field_value) s'
      | (Inl e, s') \<Rightarrow>
          if e = NetworkDetailsError then
            (case field_on_error field of
               Some on_error \<Rightarrow>
                 (case on_error raw_data data s' of
                    ((ok, data'), s'') \<Rightarrow>
                      if ok then get_fields_loop rest raw_data data' s''
                      else (Inr None, s''))
             | None \<Rightarrow> (Inr None, s'))
          else (Inl e, s'))"

definition get_fields ::
  "'s Field list \<Rightarrow> pyrecord \<Rightarrow> 's \<Rightarrow> (error + pyrecord option) \<times> 's" where
  "get_fields field_list raw_data s = get_fields_loop field_list raw_data [] s"

text \<open>
  \<open>_on_mac_not_found\<close>. \<open>name\<close> is what \<open>_get_field\<close> returns, the pair of the
  field's name and the value found, and the loop compares each adapter name with it.
  \<open>name_field\<close> stands for \<open>self._link[NAME]\<close> and \<open>network_adapters\<close> for the
  pairs \<open>osutils.get_network_adapters()\<close> returned.
\<close>

fun find_adapter :: "(pyval \<times> pyval) list \<Rightarrow> pyval \<Rightarrow> pyval option" where
  "find_adapter [] name = None"
| "find_adapter ((addapter_name, mac_address) # rest) name =
     (if py_eq addapter_name name then Some mac_address else find_adapter rest name)"

definition on_mac_not_found :: "'s Field \<Rightarrow> (pyval \<times> pyval) list \<Rightarrow> 's hook" where
  "on_mac_not_found name_field network_adapters raw_data output s =
     (case get_field name_field raw_data s of
        (Inl e, s') \<Rightarrow> ((False, output), s')
      | (Inr (fname, v), s') \<Rightarrow>
          (let name = PTuple [PStr fname, v] in
           case find_adapter network_adapters name of
             Some mac_address \<Rightarrow> ((True, record_store output MAC_ADDRESS mac_address), s')
           | None \<Rightarrow> ((False, output), s')))"

text \<open>
  The tables \<open>self._link\<close> and \<open>self._network\<close> of \<open>NetworkDetailsBuilder.__init__\<close>,
  in the order they are written. \<open>uuid1\<close> is the generator behind
  \<open>lambda: str(uuid.uuid1())\<close>; \<open>self_on_mac_not_found\<close> is the bound method
  \<open>self._on_mac_not_found\<close>.
\<close>

definition new_id :: "('s \<Rightarrow> string \<times> 's) \<Rightarrow> 's \<Rightarrow> pyval \<times> 's" where
  "new_id uuid1 s = (case uuid1 s of (u, s') \<Rightarrow> (PStr u, s'))"

definition Field_new ::
  "string \<Rightarrow> alias_spec \<Rightarrow> 's default \<Rightarrow> bool \<Rightarrow> 's hook option \<Rightarrow> 's Field" where
  "Field_new name alias dflt required on_error =
     \<lparr>field_name = name, field_alias = alias, field_default = dflt,
      field_required = required, field_on_error = on_error\<rparr>"

definition base_link ::
  "('s \<Rightarrow> string \<times> 's) \<Rightarrow> 's hook \<Rightarrow> (string \<times> 's Field) list" where
  "base_link uuid1 self_on_mac_not_found =
     [(ID, Field_new ID NoAlias (Producer (new_id uuid1)) False None),
      (NAME, Field_new NAME NoAlias (Value PNone) True None),
      (MAC_ADDRESS, Field_new MAC_ADDRESS NoAlias (Value PNone) True
                      (Some self_on_mac_not_found)),
      (TYPE', Field_new TYPE' NoAlias (Value PHY) False None),
      (MTU, Field_new MTU NoAlias (Value PNone) False None),
      (BOND_LINKS, Field_new BOND_LINKS NoAlias (Value PNone) False None),
      (BOND_MODE, Field_new BOND_MODE NoAlias (Value PNone) False None),
      (VLAN_ID, Field_new VLAN_ID NoAlias (Value PNone) False None),
      (VLAN_LINK, Field_new VLAN_LINK NoAlias (Value PNone) False None)]"

definition base_network :: "('s \<Rightarrow> string \<times> 's) \<Rightarrow> (string \<times> 's Field) list" where
  "base_network uuid1 =
     [(ID, Field_new ID NoAlias (Producer (new_id uuid1)) False None),
      (IP_ADDRESS, Field_new IP_ADDRESS NoAlias (Value PNone) True None),
      (VERSION, Field_new VERSION NoAlias (Value (PInt 4)) False None),
      (NETMASK, Field_new NETMASK NoAlias (Value PNone) True None),
      (GATEWAY, Field_new GATEWAY NoAlias (Value PNone) True None),
      (BROADCAST, Field_new BROADCAST NoAlias (Value PNone) False None),
      (DNS, Field_new DNS NoAlias (Value (PList [])) False None),
      (ASSIGNED_TO, Field_new ASSIGNED_TO NoAlias (Value PNone) False None)]"

text \<open>The base builder's own table: its hook reads the \<open>name\<close> entry of that table.\<close>

definition builder_link ::
  "('s \<Rightarrow> string \<times> 's) \<Rightarrow> (pyval \<times> pyval) list \<Rightarrow> (string \<times> 's Field) list" where
  "builder_link uuid1 network_adapters =
     base_link uuid1
       (on_mac_not_found (Field_new NAME NoAlias (Value PNone) True None) network_adapters)"

section \<open>The base builder: \<open>NetworkDetailsBuilder\<close>\<close>

text \<open>
  \<open>_digest_interface\<close> hands the work to the \<open>ipaddress\<close> library, which is not part
  of the repository: \<open>lib_ip_interface\<close> is the library call, giving the four values the
  method reads from its result (or raising), and \<open>lib_repr\<close> is the text \<open>%s\<close> gives for a
  value that is not a string.
\<close>

record interface =
  if_broadcast_address :: string
  if_netmask :: string
  if_ip :: string
  if_version :: int

record library =
  lib_ip_interface :: "pyval \<Rightarrow> error + interface"
  lib_repr :: "pyval \<Rightarrow> string"

definition py_str :: "library \<Rightarrow> pyval \<Rightarrow> string" where
  "py_str lib v = (case v of PStr s \<Rightarrow> s | _ \<Rightarrow> lib_repr lib v)"

definition digest_interface :: "library \<Rightarrow> pyval \<Rightarrow> pyval \<Rightarrow> error + pyrecord" where
  "digest_interface lib ip_address netmask =
     (let ip_address' =
            (if py_truthy netmask
             then PStr (py_str lib ip_address @ ''/'' @ py_str lib netmask)
             else ip_address)
      in case lib_ip_interface lib ip_address' of
           Inl e \<Rightarrow> Inl e
         | Inr ip_interface \<Rightarrow>
             Inr [(BROADCAST, PStr (if_broadcast_address ip_interface)),
                  (NETMASK, PStr (if_netmask ip_interface)),
                  (IP_ADDRESS, PStr (if_ip ip_interface)),
                  (VERSION, PInt (if_version ip_interface))])"

text \<open>
  The named tuples \<open>_Link\<close> and \<open>_Network\<close>, built from keyword arguments: a missing
  field, an unexpected key, or an argument of \<open>**\<close> that is not a mapping raises
  \<open>TypeError\<close>.
\<close>

definition Link_fields :: "string list" where
  "Link_fields =
     [ID, NAME, TYPE', MAC_ADDRESS, MTU, BOND_LINKS, BOND_MODE, VLAN_ID, VLAN_LINK]"

definition Network_fields :: "string list" where
  "Network_fields =
     [ID, IP_ADDRESS, VERSION, NETMASK, GATEWAY, BROADCAST, DNS, ASSIGNED_TO]"

fun bind_fields :: "string list \<Rightarrow> pyrecord \<Rightarrow> pyrecord option" where
  "bind_fields [] kwargs = Some []"
| "bind_fields (f # fs) kwargs =
     (case map_of kwargs f of
        None \<Rightarrow> None
      | Some v \<Rightarrow>
          (case bind_fields fs kwargs of
             None \<Rightarrow> None
           | Some bound \<Rightarrow> Some ((f, v) # bound)))"

definition namedtuple_new :: "string \<Rightarrow> string list \<Rightarrow> pyval \<Rightarrow> error + pyval" where
  "namedtuple_new typename field_names kwargs =
     (case kwargs of
        PDict kvs \<Rightarrow>
          if list_all (\<lambda>k. k \<in> set field_names) (map fst kvs) then
            (case bind_fields field_names kvs of
               None \<Rightarrow> Inl TypeError
             | Some bound \<Rightarrow> Inr (PNamed typename bound))
          else Inl TypeError
      | _ \<Rightarrow> Inl TypeError)"

definition Link_new :: "pyval \<Rightarrow> error + pyval" where
  "Link_new raw_link = namedtuple_new ''Link'' Link_fields raw_link"

definition Network_new :: "pyval \<Rightarrow> error + pyval" where
  "Network_new raw_network = namedtuple_new ''Network'' Network_fields raw_network"

text \<open>
  The buffers \<open>self._links\<close> and \<open>self._networks\<close>. \<open>__init__\<close> makes them empty
  dicts and \<open>_digest\<close> of a subclass fills them; the loops of \<open>_digest_links\<close> and
  \<open>_digest_networks\<close> run \<open>for raw in buffer\<close>, which gives the keys of a dict and the
  items of a list.
\<close>

datatype buffer = BufDict "pyval pydict" | BufList "pyval list"

fun buffer_truthy :: "buffer \<Rightarrow> bool" where
  "buffer_truthy (BufDict d) = (d \<noteq> [])"
| "buffer_truthy (BufList xs) = (xs \<noteq> [])"

fun buffer_iter :: "buffer \<Rightarrow> pyval list" where
  "buffer_iter (BufDict d) = dict_keys d"
| "buffer_iter (BufList xs) = xs"

text \<open>
  \<open>_digest_links\<close>: the loop over the items still to do, with \<open>links\<close> the dict built
  so far. \<open>raw_link.update(...)\<close> changes the record the buffer holds, so the loop
  also returns the items as it left them (\<open>done\<close> are the items already passed).
  Python looks the method \<open>update\<close> up before it evaluates the argument: an item that
  is not a dict has no such method.
\<close>

fun digest_links_loop ::
  "library \<Rightarrow> pyval list \<Rightarrow> pyval list \<Rightarrow> pyval pydict \<Rightarrow>
   (error + pyval pydict) \<times> pyval list" where
  "digest_links_loop lib [] done links = (Inr links, done)"
| "digest_links_loop lib (raw_link # rest) done links =
     (case raw_link of
        PDict kvs \<Rightarrow>
          (case py_getitem raw_link IP_ADDRESS of
             Inl e \<Rightarrow> (Inl e, done @ raw_link # rest)
           | Inr ip_address \<Rightarrow>
          (case py_getitem raw_link NETMASK of
             Inl e \<Rightarrow> (Inl e, done @ raw_link # rest)
           | Inr netmask \<Rightarrow>
          (case digest_interface lib ip_address netmask of
             Inl e \<Rightarrow> (Inl e, done @ raw_link # rest)
           | Inr derived \<Rightarrow>
          (let raw_link' = PDict (record_update kvs derived) in
           case Link_new raw_link' of
             Inl e \<Rightarrow>
               (Inl (if e = TypeError then NetworkDetailsError else e),
                done @ raw_link' # rest)
           | Inr link \<Rightarrow>
          (case py_getattr link ID of
             Inl e \<Rightarrow> (Inl e, done @ raw_link' # rest)
           | Inr link_id \<Rightarrow>
          (case dict_setitem links link_id link of
             Inl e \<Rightarrow> (Inl e, done @ raw_link' # rest)
           | Inr links' \<Rightarrow>
               digest_links_loop lib rest (done @ [raw_link']) links'))))))
      | _ \<Rightarrow> (Inl AttributeError, done @ raw_link # rest))"

text \<open>The keys of a dict buffer are not records: a dict buffer is left as it was.\<close>

definition digest_links :: "library \<Rightarrow> buffer \<Rightarrow> (error + pyval pydict) \<times> buffer" where
  "digest_links lib buf =
     (case buf of
        BufList xs \<Rightarrow>
          (case digest_links_loop lib xs [] [] of (r, xs') \<Rightarrow> (r, BufList xs'))
      | BufDict d \<Rightarrow>
          (case digest_links_loop lib (dict_keys d) [] [] of (r, keys') \<Rightarrow> (r, BufDict d)))"

text \<open>
  \<open>_digest_networks\<close>: \<open>networks\<close> by id, and \<open>references\<close> from \<open>assigned_to\<close> to
  the list of network ids (\<open>setdefault\<close> then \<open>append\<close>).
\<close>

definition setdefault_append ::
  "pyval list pydict \<Rightarrow> pyval \<Rightarrow> pyval \<Rightarrow> error + pyval list pydict" where
  "setdefault_append references key v =
     (if \<not> hashable key then Inl TypeError
      else case dict_lookup references key of
             None \<Rightarrow> Inr (dict_store references key [v])
           | Some assigned_to \<Rightarrow> Inr (dict_store references key (assigned_to @ [v])))"

fun digest_networks_loop ::
  "pyval list \<Rightarrow> pyval pydict \<Rightarrow> pyval list pydict \<Rightarrow>
   error + pyval pydict \<times> pyval list pydict" where
  "digest_networks_loop [] networks references = Inr (networks, references)"
| "digest_networks_loop (raw_network # rest) networks references =
     (case Network_new raw_network of
        Inl e \<Rightarrow> Inl (if e = TypeError then NetworkDetailsError else e)
      | Inr network \<Rightarrow>
     (case py_getattr network ID of
        Inl e \<Rightarrow> Inl e
      | Inr network_id \<Rightarrow>
     (case dict_setitem networks network_id network of
        Inl e \<Rightarrow> Inl e
      | Inr networks' \<Rightarrow>
     (case py_getattr network ASSIGNED_TO of
        Inl e \<Rightarrow> Inl e
      | Inr assigned_to \<Rightarrow>
     (case setdefault_append references assigned_to network_id of
        Inl e \<Rightarrow> Inl e
      | Inr references' \<Rightarrow> digest_networks_loop rest networks' references')))))"

definition digest_networks ::
  "buffer \<Rightarrow> error + pyval pydict \<times> pyval list pydict" where
  "digest_networks buf = digest_networks_loop (buffer_iter buf) [] []"

section \<open>\<open>NetworkDetails\<close>\<close>

text \<open>The three attributes the constructor sets, from its parameters \<open>raw_links\<close>,
  \<open>raw_networks\<close> and \<open>raw_references\<close>, and the four read methods.\<close>

record NetworkDetails =
  nd_assigned_to :: "pyval pydict"
  nd_links :: "pyval pydict"
  nd_networks :: "pyval pydict"

definition NetworkDetails_init ::
  "pyval pydict \<Rightarrow> pyval pydict \<Rightarrow> pyval pydict \<Rightarrow> NetworkDetails" where
  "NetworkDetails_init raw_links raw_networks raw_references =
     \<lparr>nd_assigned_to = raw_links, nd_links = raw_networks, nd_networks = raw_references\<rparr>"

definition get_link :: "NetworkDetails \<Rightarrow> pyval \<Rightarrow> error + pyval" where
  "get_link self link_id = dict_get (nd_links self) link_id"

definition get_links :: "NetworkDetails \<Rightarrow> pyval list" where
  "get_links self = dict_keys (nd_links self)"

definition get_network :: "NetworkDetails \<Rightarrow> pyval \<Rightarrow> error + pyval" where
  "get_network self network_id = dict_get (nd_networks self) network_id"

definition get_networks :: "NetworkDetails \<Rightarrow> pyval \<Rightarrow> error + pyval" where
  "get_networks self link_id = dict_get (nd_assigned_to self) link_id"

section \<open>\<open>NetworkDetailsBuilder.get_network_details\<close>\<close>

text \<open>
  The state of a builder: the two buffers and the state of the id generator. A subclass
  adds its own attributes. \<open>_digest\<close> is abstract: it is the parameter \<open>digest\<close>, which
  may change the whole state and may raise.
\<close>

record 's builder =
  b_links :: buffer
  b_networks :: buffer
  b_clock :: 's

definition get_network_details ::
  "library \<Rightarrow>
   (('s, 'm) builder_scheme \<Rightarrow> (error + unit) \<times> ('s, 'm) builder_scheme) \<Rightarrow>
   ('s, 'm) builder_scheme \<Rightarrow> (error + NetworkDetails) \<times> ('s, 'm) builder_scheme" where
  "get_network_details lib digest self =
     (case (if \<not> buffer_truthy (b_links self) \<or> \<not> buffer_truthy (b_networks self)
            then digest self else (Inr (), self)) of
        (Inl e, self1) \<Rightarrow> (Inl e, self1)
      | (Inr u, self1) \<Rightarrow>
     (case digest_links lib (b_links self1) of
        (Inl e, buf) \<Rightarrow> (Inl e, self1\<lparr>b_links := buf\<rparr>)
      | (Inr links, buf) \<Rightarrow>
     (case digest_networks (b_networks self1) of
        Inl e \<Rightarrow> (Inl e, self1\<lparr>b_links := buf\<rparr>)
      | Inr (networks, references) \<Rightarrow>
          (Inr (NetworkDetails_init links networks
                  (map (\<lambda>(k, assigned_to). (k, PList assigned_to)) references)),
           self1\<lparr>b_links := buf\<rparr>))))"

section \<open>The OpenStack HTTP builder: \<open>httpservice._NetworkDetailsBuilder\<close>\<close>

text \<open>
  \<open>network_data\<close> is the parsed \<open>network_data.json\<close>: its \<open>links\<close> and \<open>networks\<close>
  entries, each a list of records when present. The builder adds \<open>_network_data\<close> and
  \<open>_invalid_links\<close> to the state and overrides four field descriptors.
\<close>

record network_data =
  data_links :: "pyrecord list option"
  data_networks :: "pyrecord list option"

record 's http_builder = "'s builder" +
  b_network_data :: network_data
  b_invalid_links :: "pyval list"

definition http_link ::
  "('s \<Rightarrow> string \<times> 's) \<Rightarrow> (pyval \<times> pyval) list \<Rightarrow> (string \<times> 's Field) list" where
  "http_link uuid1 network_adapters =
     (let name_field = Field_new NAME (Alias ''id'') (Value PNone) True None;
          self_on_mac_not_found = on_mac_not_found name_field network_adapters
      in record_update (base_link uuid1 self_on_mac_not_found)
           [(NAME, name_field),
            (MAC_ADDRESS, Field_new MAC_ADDRESS (Alias ''ethernet_mac_address'') (Value PNone)
                            True (Some self_on_mac_not_found))])"

definition http_network :: "('s \<Rightarrow> string \<times> 's) \<Rightarrow> (string \<times> 's Field) list" where
  "http_network uuid1 =
     record_update (base_network uuid1)
       [(VERSION, Field_new VERSION (Alias ''type'') (Value (PInt 4)) True None),
        (ASSIGNED_TO, Field_new ASSIGNED_TO (Alias ''link'') (Value PNone) True None)]"

text \<open>\<open>if link:\<close> and \<open>if not network:\<close> test the result of \<open>_get_fields\<close>:
  \<open>None\<close> and the empty dict are false.\<close>

text \<open>
  \<open>dict.keys()\<close> is a list in Python 2 and a view in Python 3, and the two differ in
  what \<open>pop\<close> does: \<open>list.pop\<close> takes at most one argument, an index, and a view has
  no \<open>pop\<close> at all.
\<close>

datatype python = Py2 | Py3

text \<open>The first loop of \<open>_digest\<close>, over the raw links.\<close>

fun digest_raw_links ::
  "'s Field list \<Rightarrow> pyrecord list \<Rightarrow> ('s, 'm) builder_scheme \<Rightarrow>
   (error + unit) \<times> ('s, 'm) builder_scheme" where
  "digest_raw_links link_fields [] self = (Inr (), self)"
| "digest_raw_links link_fields (raw_link # rest) self =
     (case get_fields link_fields raw_link (b_clock self) of
        (Inl e, s') \<Rightarrow> (Inl e, self\<lparr>b_clock := s'\<rparr>)
      | (Inr None, s') \<Rightarrow> digest_raw_links link_fields rest (self\<lparr>b_clock := s'\<rparr>)
      | (Inr (Some link), s') \<Rightarrow>
          if link \<noteq> [] then
            (case map_of link VERSION of
               None \<Rightarrow> (Inl KeyError, self\<lparr>b_clock := s'\<rparr>)
             | Some v \<Rightarrow>
                 (let link' = record_store link VERSION
                                (if py_eq v (PStr ''ipv4'') then IPV4 else IPV6)
                  in case map_of link' ID of
                       None \<Rightarrow> (Inl KeyError, self\<lparr>b_clock := s'\<rparr>)
                     | Some link_id \<Rightarrow>
                    (case b_links self of
                       BufList xs \<Rightarrow> (Inl TypeError, self\<lparr>b_clock := s'\<rparr>)
                     | BufDict d \<Rightarrow>
                    (case dict_setitem d link_id (PDict link') of
                       Inl e \<Rightarrow> (Inl e, self\<lparr>b_clock := s'\<rparr>)
                     | Inr d' \<Rightarrow>
                         digest_raw_links link_fields rest
                           (self\<lparr>b_clock := s', b_links := BufDict d'\<rparr>)))))
          else digest_raw_links link_fields rest (self\<lparr>b_clock := s'\<rparr>))"

text \<open>
  \<open>_digest_raw_networks\<close>. For a network that resolves, the statement
  \<open>self._invalid_links.pop(network[ASSIGNED_TO], None)\<close> raises: nothing after it in
  the loop body (the routes) is ever reached.
\<close>

fun digest_raw_networks_loop ::
  "python \<Rightarrow> 's Field list \<Rightarrow> pyrecord list \<Rightarrow> ('s, 'm) builder_scheme \<Rightarrow>
   (error + unit) \<times> ('s, 'm) builder_scheme" where
  "digest_raw_networks_loop py network_fields [] self = (Inr (), self)"
| "digest_raw_networks_loop py network_fields (raw_network # rest) self =
     (case get_fields network_fields raw_network (b_clock self) of
        (Inl e, s') \<Rightarrow> (Inl e, self\<lparr>b_clock := s'\<rparr>)
      | (Inr None, s') \<Rightarrow>
          digest_raw_networks_loop py network_fields rest (self\<lparr>b_clock := s'\<rparr>)
      | (Inr (Some network), s') \<Rightarrow>
          if network = [] then
            digest_raw_networks_loop py network_fields rest (self\<lparr>b_clock := s'\<rparr>)
          else
            (case py of
               Py3 \<Rightarrow> (Inl AttributeError, self\<lparr>b_clock := s'\<rparr>)
             | Py2 \<Rightarrow>
                 (case map_of network ASSIGNED_TO of
                    None \<Rightarrow> (Inl KeyError, self\<lparr>b_clock := s'\<rparr>)
                  | Some link_id \<Rightarrow> (Inl TypeError, self\<lparr>b_clock := s'\<rparr>))))"

definition digest_raw_networks ::
  "python \<Rightarrow> 's Field list \<Rightarrow> 's http_builder \<Rightarrow> (error + unit) \<times> 's http_builder" where
  "digest_raw_networks py network_fields self =
     (case data_networks (b_network_data self) of
        None \<Rightarrow> (Inl TypeError, self)
      | Some raw_networks \<Rightarrow> digest_raw_networks_loop py network_fields raw_networks self)"

text \<open>
  The last loop of \<open>_digest\<close>, \<open>while self._invalid_links\<close>, in Python 2: \<open>pop()\<close>
  takes the last key and \<open>self._links.pop(key)\<close> removes it (\<open>KeyError\<close> when it is not
  there). The keys are given last first; the result carries the keys not yet popped and
  the links.
\<close>

fun remove_invalid_links ::
  "pyval list \<Rightarrow> buffer \<Rightarrow> (error + unit) \<times> pyval list \<times> buffer" where
  "remove_invalid_links [] links = (Inr (), [], links)"
| "remove_invalid_links (invalid_link # rest) links =
     (case links of
        BufList xs \<Rightarrow> (Inl TypeError, rest, links)
      | BufDict d \<Rightarrow>
          (case dict_lookup d invalid_link of
             None \<Rightarrow> (Inl KeyError, rest, links)
           | Some link \<Rightarrow> remove_invalid_links rest (BufDict (dict_remove d invalid_link))))"

definition http_digest ::
  "python \<Rightarrow> ('s \<Rightarrow> string \<times> 's) \<Rightarrow> (pyval \<times> pyval) list \<Rightarrow>
   's http_builder \<Rightarrow> (error + unit) \<times> 's http_builder" where
  "http_digest py uuid1 network_adapters self =
     (case digest_raw_links (map snd (http_link uuid1 network_adapters))
             (case data_links (b_network_data self) of None \<Rightarrow> [] | Some raw \<Rightarrow> raw) self of
        (Inl e, self1) \<Rightarrow> (Inl e, self1)
      | (Inr u, self1) \<Rightarrow>
     (case b_links self1 of
        BufList xs \<Rightarrow> (Inl AttributeError, self1)
      | BufDict d \<Rightarrow>
     (let self2 = self1\<lparr>b_invalid_links := dict_keys d\<rparr> in
      case digest_raw_networks py (map snd (http_network uuid1)) self2 of
        (Inl e, self3) \<Rightarrow> (Inl e, self3)
      | (Inr u, self3) \<Rightarrow>
          if b_invalid_links self3 = [] then (Inr (), self3)
          else
            (case py of
               Py3 \<Rightarrow> (Inl AttributeError, self3)
             | Py2 \<Rightarrow>
                 (case remove_invalid_links (rev (b_invalid_links self3)) (b_links self3) of
                    (r, left, links') \<Rightarrow>
                      (r, self3\<lparr>b_invalid_links := rev left, b_links := links'\<rparr>))))))"

section \<open>The plugin: \<open>NetworkConfigPlugin\<close>\<close>

text \<open>
  The two primitives of \<open>osutils\<close> the plugin calls are outside the repository: each
  is a parameter that takes the state of the host, may change it, and returns or
  raises. \<open>set_static_network_config\<close> answers whether a reboot is required.
\<close>

record 'os osutils =
  set_static_network_config ::
    "pyval \<Rightarrow> pyval \<Rightarrow> pyval \<Rightarrow> pyval \<Rightarrow> pyval \<Rightarrow> pyval \<Rightarrow> 'os \<Rightarrow> (error + bool) \<times> 'os"
  set_static_network_config_v6 ::
    "pyval \<Rightarrow> pyval \<Rightarrow> pyval \<Rightarrow> pyval \<Rightarrow> 'os \<Rightarrow> (error + unit) \<times> 'os"

definition set_static_network_config_v6' ::
  "'os osutils \<Rightarrow> pyval \<Rightarrow> pyval \<Rightarrow> 'os \<Rightarrow> (error + bool) \<times> 'os" where
  "set_static_network_config_v6' osutils link network os =
     (case py_getattr link MAC_ADDRESS of Inl e \<Rightarrow> (Inl e, os) | Inr mac_address \<Rightarrow>
     (case py_getattr network IP_ADDRESS of Inl e \<Rightarrow> (Inl e, os) | Inr address6 \<Rightarrow>
     (case py_getattr network NETMASK of Inl e \<Rightarrow> (Inl e, os) | Inr netmask6 \<Rightarrow>
     (case py_getattr network GATEWAY of Inl e \<Rightarrow> (Inl e, os) | Inr gateway6 \<Rightarrow>
     (case set_static_network_config_v6 osutils mac_address address6 netmask6 gateway6 os of
        (Inl e, os') \<Rightarrow> (Inl e, os')
      | (Inr u, os') \<Rightarrow> (Inr False, os'))))))"

definition set_static_network_config_v4 ::
  "'os osutils \<Rightarrow> pyval \<Rightarrow> pyval \<Rightarrow> 'os \<Rightarrow> (error + bool) \<times> 'os" where
  "set_static_network_config_v4 osutils link network os =
     (case py_getattr link MAC_ADDRESS of Inl e \<Rightarrow> (Inl e, os) | Inr mac_address \<Rightarrow>
     (case py_getattr network IP_ADDRESS of Inl e \<Rightarrow> (Inl e, os) | Inr address \<Rightarrow>
     (case py_getattr network NETMASK of Inl e \<Rightarrow> (Inl e, os) | Inr netmask \<Rightarrow>
     (case py_getattr network BROADCAST of Inl e \<Rightarrow> (Inl e, os) | Inr broadcast \<Rightarrow>
     (case py_getattr network GATEWAY of Inl e \<Rightarrow> (Inl e, os) | Inr gateway \<Rightarrow>
     (case py_getattr network DNS of Inl e \<Rightarrow> (Inl e, os) | Inr dnsnameservers \<Rightarrow>
        set_static_network_config osutils mac_address address netmask broadcast gateway
          dnsnameservers os))))))"

text \<open>\<open>_configure_phy\<close>: the loop over the network ids of the link, with \<open>response\<close>
  the disjunction so far.\<close>

fun configure_phy_loop ::
  "'os osutils \<Rightarrow> NetworkDetails \<Rightarrow> pyval \<Rightarrow> pyval list \<Rightarrow> bool \<Rightarrow> 'os \<Rightarrow>
   (error + bool) \<times> 'os" where
  "configure_phy_loop osutils network_details link [] response os = (Inr response, os)"
| "configure_phy_loop osutils network_details link (network_id # rest) response os =
     (case get_network network_details network_id of Inl e \<Rightarrow> (Inl e, os) | Inr network \<Rightarrow>
     (case py_getattr network ID of Inl e \<Rightarrow> (Inl e, os) | Inr nid \<Rightarrow>
     (case py_getattr network VERSION of Inl e \<Rightarrow> (Inl e, os) | Inr version \<Rightarrow>
     (case (if py_eq version IPV4
            then set_static_network_config_v4 osutils link network os
            else set_static_network_config_v6' osutils link network os) of
        (Inl e, os') \<Rightarrow> (Inl e, os')
      | (Inr r, os') \<Rightarrow>
          configure_phy_loop osutils network_details link rest (response \<or> r) os'))))"

definition configure_phy ::
  "'os osutils \<Rightarrow> NetworkDetails \<Rightarrow> pyval \<Rightarrow> 'os \<Rightarrow> (error + bool) \<times> 'os" where
  "configure_phy osutils network_details link os =
     (case py_getattr link ID of Inl e \<Rightarrow> (Inl e, os) | Inr link_id \<Rightarrow>
     (case get_networks network_details link_id of Inl e \<Rightarrow> (Inl e, os) | Inr assigned \<Rightarrow>
     (case py_iter assigned of Inl e \<Rightarrow> (Inl e, os) | Inr network_ids \<Rightarrow>
        configure_phy_loop osutils network_details link network_ids False os)))"

text \<open>\<open>_configure_interface\<close>: the debug line reads \<open>link.name\<close> and
  \<open>link.mac_address\<close> before the type is looked at.\<close>

definition configure_interface ::
  "'os osutils \<Rightarrow> NetworkDetails \<Rightarrow> pyval \<Rightarrow> 'os \<Rightarrow> (error + bool) \<times> 'os" where
  "configure_interface osutils network_details link os =
     (case py_getattr link NAME of Inl e \<Rightarrow> (Inl e, os) | Inr name \<Rightarrow>
     (case py_getattr link MAC_ADDRESS of Inl e \<Rightarrow> (Inl e, os) | Inr mac \<Rightarrow>
     (case py_getattr link TYPE' of Inl e \<Rightarrow> (Inl e, os) | Inr link_type \<Rightarrow>
        if py_eq link_type PHY then configure_phy osutils network_details link os
        else (Inl NetworkDetailsError, os))))"

text \<open>
  \<open>execute\<close>. What \<open>service.get_network_details()\<close> returned is either a
  \<open>NetworkDetails\<close> object or some other value. The result carries the lines logged at
  level error (\<open>LOG.exception\<close>, \<open>LOG.error\<close>) and the state of the host.
\<close>

datatype received = Details NetworkDetails | Other pyval

datatype plugin_status = PLUGIN_EXECUTION_DONE

datatype log_line =
    LOG_exception error
  | LOG_error_failed_to_configure pyval
  | LOG_error_no_adapters

fun execute_loop ::
  "'os osutils \<Rightarrow> NetworkDetails \<Rightarrow> pyval list \<Rightarrow> bool \<Rightarrow> bool \<Rightarrow> log_line list \<Rightarrow> 'os \<Rightarrow>
   (error + bool \<times> bool) \<times> log_line list \<times> 'os" where
  "execute_loop osutils network_details [] reboot_required configured log os =
     (Inr (reboot_required, configured), log, os)"
| "execute_loop osutils network_details (link_id # rest) reboot_required configured log os =
     (case get_link network_details link_id of Inl e \<Rightarrow> (Inl e, log, os) | Inr link \<Rightarrow>
     (case configure_interface osutils network_details link os of
        (Inr r, os') \<Rightarrow>
          execute_loop osutils network_details rest (reboot_required \<or> r) True log os'
      | (Inl exc, os') \<Rightarrow>
          if exc = NetworkDetailsError then
            (case py_getattr link MAC_ADDRESS of
               Inl e \<Rightarrow> (Inl e, log @ [LOG_exception exc], os')
             | Inr mac_address \<Rightarrow>
                 execute_loop osutils network_details rest reboot_required configured
                   (log @ [LOG_exception exc, LOG_error_failed_to_configure mac_address]) os')
          else (Inl exc, log, os')))"

definition execute ::
  "'os osutils \<Rightarrow> received \<Rightarrow> 'os \<Rightarrow>
   (error + plugin_status \<times> bool) \<times> log_line list \<times> 'os" where
  "execute osutils network_details os =
     (case network_details of
        Other v \<Rightarrow>
          if \<not> py_truthy v then (Inr (PLUGIN_EXECUTION_DONE, False), [], os)
          else (Inl CloudbaseInitException, [], os)
      | Details details \<Rightarrow>
          (case execute_loop osutils details (get_links details) False False [] os of
             (Inl e, log, os') \<Rightarrow> (Inl e, log, os')
           | (Inr (reboot_required, configured), log, os') \<Rightarrow>
               (Inr (PLUGIN_EXECUTION_DONE, reboot_required),
                if \<not> configured then log @ [LOG_error_no_adapters] else log, os')))"

section \<open>The \<open>ipaddress\<close> library\<close>

text \<open>
  Modelled from the spec: \<open>_digest_interface\<close> computes nothing itself, it calls
  \<open>ipaddress.ip_interface\<close>, and that library is not part of the repository. The spec
  asks for "standard IP-interface arithmetic" on IPv4 and IPv6 text, exact for both; the
  definitions of this section give that arithmetic the way the library does it (text
  to number, netmask from prefix length, broadcast address, number to text), on strings.
\<close>

text \<open>Modelled from the spec: \<open>s.split(sep)\<close>, the pieces between the occurrences of the separator.\<close>

fun split_on :: "char \<Rightarrow> string \<Rightarrow> string list" where
  "split_on sep [] = [[]]"
| "split_on sep (c # cs) =
     (if c = sep then [] # split_on sep cs
      else (case split_on sep cs of
              [] \<Rightarrow> [[c]]
            | part # parts \<Rightarrow> (c # part) # parts))"

text \<open>Modelled from the spec: \<open>sep.join(parts)\<close>.\<close>

fun join_with :: "char \<Rightarrow> string list \<Rightarrow> string" where
  "join_with sep [] = []"
| "join_with sep [part] = part"
| "join_with sep (part # parts) = part @ sep # join_with sep parts"

text \<open>Modelled from the spec: the value of an ASCII decimal digit.\<close>

definition digit_of :: "char \<Rightarrow> int option" where
  "digit_of c =
     (let n = of_char c :: int in
      if 48 \<le> n \<and> n \<le> 57 then Some (n - 48) else None)"

text \<open>Modelled from the spec: the value of a hexadecimal digit, of either case.\<close>

definition hex_digit_of :: "char \<Rightarrow> int option" where
  "hex_digit_of c =
     (let n = of_char c :: int in
      if 48 \<le> n \<and> n \<le> 57 then Some (n - 48)
      else if 97 \<le> n \<and> n \<le> 102 then Some (n - 87)
      else if 65 \<le> n \<and> n \<le> 70 then Some (n - 55)
      else None)"

text \<open>Modelled from the spec: \<open>int(s, base)\<close> on a string of digits of that base, read from the left
  with the value so far.\<close>

fun int_of_digits :: "(char \<Rightarrow> int option) \<Rightarrow> int \<Rightarrow> int \<Rightarrow> string \<Rightarrow> int option" where
  "int_of_digits digit base acc [] = Some acc"
| "int_of_digits digit base acc (c # cs) =
     (case digit c of
        None \<Rightarrow> None
      | Some d \<Rightarrow> int_of_digits digit base (acc * base + d) cs)"

text \<open>Modelled from the spec: the digit character of a value below 16, in lower case.\<close>

definition digit_char :: "int \<Rightarrow> char" where
  "digit_char d = (if d < 10 then char_of (48 + d) else char_of (87 + d))"

text \<open>Modelled from the spec: \<open>str(n)\<close> and \<open>'%x' % n\<close> for a number that is not negative, by its
  base.\<close>

function str_of_int :: "int \<Rightarrow> int \<Rightarrow> string" where
  "str_of_int base n =
     (if base < 2 \<or> n < base then [digit_char n]
      else str_of_int base (n div base) @ [digit_char (n mod base)])"
  by pat_completeness auto
termination
  by (relation "measure (\<lambda>(base, n). nat n)") (auto simp: div_less_dividend zdiv_mono2 intro!: int_div_less_self)

declare str_of_int.simps [simp del]

text \<open>Modelled from the spec: \<open>_parse_octet\<close>, one decimal field of an IPv4 address: one to three
  digits, no leading zero, at most 255.\<close>

definition parse_octet :: "string \<Rightarrow> int option" where
  "parse_octet octet_str =
     (if octet_str = [] then None
      else if \<not> list_all (\<lambda>c. digit_of c \<noteq> None) octet_str then None
      else if length octet_str > 3 then None
      else if octet_str \<noteq> ''0'' \<and> hd octet_str = CHR ''0'' then None
      else case int_of_digits digit_of 10 0 octet_str of
             None \<Rightarrow> None
           | Some octet_int \<Rightarrow> if octet_int > 255 then None else Some octet_int)"

text \<open>Modelled from the spec: an IPv4 address in dotted decimal notation, as a number.\<close>

definition ipv4_int_from_string :: "string \<Rightarrow> int option" where
  "ipv4_int_from_string ip_str =
     (if ip_str = [] then None
      else case map parse_octet (split_on CHR ''.'' ip_str) of
             [Some a, Some b, Some c, Some d] \<Rightarrow> Some (((a * 256 + b) * 256 + c) * 256 + d)
           | _ \<Rightarrow> None)"

text \<open>Modelled from the spec: the dotted decimal notation of a 32-bit number.\<close>

definition ipv4_string_from_int :: "int \<Rightarrow> string" where
  "ipv4_string_from_int ip_int =
     join_with CHR ''.''
       (map (str_of_int 10)
          [ip_int div 16777216 mod 256, ip_int div 65536 mod 256, ip_int div 256 mod 256,
           ip_int mod 256])"

text \<open>Modelled from the spec: the address of all ones, for a width in bits.\<close>

definition ALL_ONES :: "nat \<Rightarrow> int" where
  "ALL_ONES max_prefixlen = 2 ^ max_prefixlen - 1"

text \<open>Modelled from the spec: the netmask of a prefix length, as the library computes it:
  \<open>ALL_ONES ^ (ALL_ONES >> prefixlen)\<close>.\<close>

definition ip_int_from_prefix :: "nat \<Rightarrow> nat \<Rightarrow> int" where
  "ip_int_from_prefix max_prefixlen prefixlen =
     ALL_ONES max_prefixlen XOR drop_bit prefixlen (ALL_ONES max_prefixlen)"

text \<open>Modelled from the spec: the number of zero bits at the right of a positive number.\<close>

function righthand_zero_bits :: "int \<Rightarrow> nat" where
  "righthand_zero_bits number =
     (if number \<le> 0 \<or> odd number then 0 else Suc (righthand_zero_bits (number div 2)))"
  by pat_completeness auto
termination
  by (relation "measure nat") auto

declare righthand_zero_bits.simps [simp del]

text \<open>Modelled from the spec: \<open>_count_righthand_zero_bits\<close>.\<close>

definition count_righthand_zero_bits :: "int \<Rightarrow> nat \<Rightarrow> nat" where
  "count_righthand_zero_bits number bits =
     (if number = 0 then bits else min bits (righthand_zero_bits number))"

text \<open>Modelled from the spec: the prefix length of a netmask given as a number: ones, then
  zeroes, or nothing.\<close>

definition prefix_from_ip_int :: "nat \<Rightarrow> int \<Rightarrow> nat option" where
  "prefix_from_ip_int max_prefixlen ip_int =
     (let trailing_zeroes = count_righthand_zero_bits ip_int max_prefixlen;
          prefixlen = max_prefixlen - trailing_zeroes;
          leading_ones = drop_bit trailing_zeroes ip_int;
          all_ones = 2 ^ prefixlen - 1
      in if leading_ones \<noteq> all_ones then None else Some prefixlen)"

text \<open>Modelled from the spec: a prefix length written in decimal digits, within the width.\<close>

definition prefix_from_prefix_string :: "nat \<Rightarrow> string \<Rightarrow> nat option" where
  "prefix_from_prefix_string max_prefixlen prefixlen_str =
     (if prefixlen_str = [] \<or> \<not> list_all (\<lambda>c. digit_of c \<noteq> None) prefixlen_str then None
      else case int_of_digits digit_of 10 0 prefixlen_str of
             None \<Rightarrow> None
           | Some prefixlen \<Rightarrow>
               if prefixlen \<le> int max_prefixlen then Some (nat prefixlen) else None)"

text \<open>Modelled from the spec: a dotted netmask, or else a dotted hostmask, as a prefix
  length.\<close>

definition prefix_from_ip_string :: "string \<Rightarrow> nat option" where
  "prefix_from_ip_string ip_str =
     (case ipv4_int_from_string ip_str of
        None \<Rightarrow> None
      | Some ip_int \<Rightarrow>
          (case prefix_from_ip_int 32 ip_int of
             Some prefixlen \<Rightarrow> Some prefixlen
           | None \<Rightarrow> prefix_from_ip_int 32 (ip_int XOR ALL_ONES 32)))"

text \<open>Modelled from the spec: what follows the \<open>/\<close> of an IPv4 interface: a prefix length or a
  dotted mask.\<close>

definition make_netmask_v4 :: "string \<Rightarrow> nat option" where
  "make_netmask_v4 arg =
     (case prefix_from_prefix_string 32 arg of
        Some prefixlen \<Rightarrow> Some prefixlen
      | None \<Rightarrow> prefix_from_ip_string arg)"

text \<open>Modelled from the spec: what follows the \<open>/\<close> of an IPv6 interface: a prefix length.\<close>

definition make_netmask_v6 :: "string \<Rightarrow> nat option" where
  "make_netmask_v6 arg = prefix_from_prefix_string 128 arg"

subsection \<open>IPv6\<close>

text \<open>Modelled from the spec: one field of an IPv6 address, one to four hexadecimal digits.\<close>

definition parse_hextet :: "string \<Rightarrow> int option" where
  "parse_hextet hextet_str =
     (if \<not> list_all (\<lambda>c. hex_digit_of c \<noteq> None) hextet_str then None
      else if length hextet_str > 4 then None
      else if hextet_str = [] then None
      else int_of_digits hex_digit_of 16 0 hextet_str)"

text \<open>Modelled from the spec: the loop \<open>ip_int <<= 16; ip_int |= hextet\<close> over a list of
  hextets.\<close>

fun shift_in_hextets :: "int \<Rightarrow> string list \<Rightarrow> int option" where
  "shift_in_hextets ip_int [] = Some ip_int"
| "shift_in_hextets ip_int (part # parts) =
     (case parse_hextet part of
        None \<Rightarrow> None
      | Some hextet \<Rightarrow> shift_in_hextets (push_bit 16 ip_int OR hextet) parts)"

text \<open>Modelled from the spec: the indices \<open>1 \<le> i < len(parts) - 1\<close> of the empty parts
  (where \<open>::\<close> stands).\<close>

definition empty_inner_parts :: "string list \<Rightarrow> nat list" where
  "empty_inner_parts parts = filter (\<lambda>i. parts ! i = []) [1 ..< length parts - 1]"

text \<open>Modelled from the spec: an IPv6 address from the parts between its colons (an IPv4
  tail already turned into two hextets): eight hextets, or fewer around one \<open>::\<close>.\<close>

definition ipv6_int_from_parts :: "string list \<Rightarrow> int option" where
  "ipv6_int_from_parts parts =
     (if length parts > 9 then None
      else
        (case empty_inner_parts parts of
           [] \<Rightarrow>
             if length parts \<noteq> 8 then None
             else if hd parts = [] then None
             else if last parts = [] then None
             else shift_in_hextets 0 parts
         | [skip_index] \<Rightarrow>
             (let parts_hi = (if hd parts = [] then skip_index - 1 else skip_index);
                  parts_lo = (if last parts = [] then length parts - skip_index - 2
                              else length parts - skip_index - 1)
              in if hd parts = [] \<and> parts_hi \<noteq> 0 then None
                 else if last parts = [] \<and> parts_lo \<noteq> 0 then None
                 else if parts_hi + parts_lo \<ge> 8 then None
                 else
                   (case shift_in_hextets 0 (take parts_hi parts) of
                      None \<Rightarrow> None
                    | Some hi \<Rightarrow>
                        shift_in_hextets (push_bit (16 * (8 - (parts_hi + parts_lo))) hi)
                          (drop (length parts - parts_lo) parts)))
         | _ \<Rightarrow> None))"

text \<open>Modelled from the spec: an IPv6 address in text, as a number. A scope id (\<open>%eth0\<close>) is
  not read.\<close>

definition ipv6_int_from_string :: "string \<Rightarrow> int option" where
  "ipv6_int_from_string ip_str =
     (if ip_str = [] then None
      else
        let parts = split_on CHR '':'' ip_str in
        if length parts < 3 then None
        else if CHR ''.'' \<in> set (last parts) then
          (case ipv4_int_from_string (last parts) of
             None \<Rightarrow> None
           | Some ipv4_int \<Rightarrow>
               ipv6_int_from_parts
                 (butlast parts @
                  [str_of_int 16 (drop_bit 16 ipv4_int AND 65535),
                   str_of_int 16 (ipv4_int AND 65535)]))
        else ipv6_int_from_parts parts)"

text \<open>Modelled from the spec: the normal form of an IPv6 address replaces the longest run
  of zero hextets (the first of the longest, when longer than one) by \<open>::\<close>. First the
  scan for that run.\<close>

fun longest_zero_run ::
  "string list \<Rightarrow> nat \<Rightarrow> nat option \<Rightarrow> nat \<Rightarrow> nat option \<times> nat \<Rightarrow> nat option \<times> nat" where
  "longest_zero_run [] index doublecolon_start doublecolon_len best = best"
| "longest_zero_run (hextet # rest) index doublecolon_start doublecolon_len best =
     (if hextet = ''0'' then
        (let len' = doublecolon_len + 1;
             start' = (case doublecolon_start of None \<Rightarrow> Some index | Some i \<Rightarrow> Some i)
         in longest_zero_run rest (index + 1) start' len'
              (if len' > snd best then (start', len') else best))
      else longest_zero_run rest (index + 1) None 0 best)"

text \<open>Modelled from the spec: the replacement of that run.\<close>

definition compress_hextets :: "string list \<Rightarrow> string list" where
  "compress_hextets hextets =
     (case longest_zero_run hextets 0 None 0 (None, 0) of
        (Some best_doublecolon_start, best_doublecolon_len) \<Rightarrow>
          if best_doublecolon_len > 1 then
            (let best_doublecolon_end = best_doublecolon_start + best_doublecolon_len;
                 hextets1 = (if best_doublecolon_end = length hextets then hextets @ [[]]
                             else hextets);
                 hextets2 = take best_doublecolon_start hextets1 @ [[]] @
                            drop best_doublecolon_end hextets1
             in if best_doublecolon_start = 0 then [] # hextets2 else hextets2)
          else hextets
      | (None, best_doublecolon_len) \<Rightarrow> hextets)"

text \<open>Modelled from the spec: the text of a 128-bit number: eight hextets in lower case,
  compressed.\<close>

definition ipv6_string_from_int :: "int \<Rightarrow> string" where
  "ipv6_string_from_int ip_int =
     join_with CHR '':''
       (compress_hextets
          (map (\<lambda>i. str_of_int 16 (drop_bit (16 * (7 - i)) ip_int AND 65535)) [0 ..< 8]))"

subsection \<open>Interfaces\<close>

text \<open>Modelled from the spec: the four values \<open>_digest_interface\<close> reads from an
  interface, from the address and the prefix length: the broadcast address is the
  network address with the host bits set.\<close>

definition interface_of ::
  "nat \<Rightarrow> int \<Rightarrow> (int \<Rightarrow> string) \<Rightarrow> int \<Rightarrow> nat \<Rightarrow> interface" where
  "interface_of max_prefixlen ip_version to_string ip_int prefixlen =
     (let netmask = ip_int_from_prefix max_prefixlen prefixlen;
          network_address = ip_int AND netmask;
          hostmask = netmask XOR ALL_ONES max_prefixlen
      in \<lparr>if_broadcast_address = to_string (network_address OR hostmask),
          if_netmask = to_string netmask,
          if_ip = to_string ip_int,
          if_version = ip_version\<rparr>)"

text \<open>Modelled from the spec: an IPv4 interface in text, \<open>address\<close> or \<open>address/mask\<close>;
  \<open>None\<close> where the library raises \<open>AddressValueError\<close> or \<open>NetmaskValueError\<close>.\<close>

definition IPv4Interface :: "string \<Rightarrow> interface option" where
  "IPv4Interface address =
     (case split_on CHR ''/'' address of
        [addr_str] \<Rightarrow>
          (case ipv4_int_from_string addr_str of
             None \<Rightarrow> None
           | Some ip_int \<Rightarrow> Some (interface_of 32 4 ipv4_string_from_int ip_int 32))
      | [addr_str, mask_str] \<Rightarrow>
          (case ipv4_int_from_string addr_str of
             None \<Rightarrow> None
           | Some ip_int \<Rightarrow>
               (case make_netmask_v4 mask_str of
                  None \<Rightarrow> None
                | Some prefixlen \<Rightarrow>
                    Some (interface_of 32 4 ipv4_string_from_int ip_int prefixlen)))
      | _ \<Rightarrow> None)"

text \<open>Modelled from the spec: an IPv6 interface in text, in the same way.\<close>

definition IPv6Interface :: "string \<Rightarrow> interface option" where
  "IPv6Interface address =
     (case split_on CHR ''/'' address of
        [addr_str] \<Rightarrow>
          (case ipv6_int_from_string addr_str of
             None \<Rightarrow> None
           | Some ip_int \<Rightarrow> Some (interface_of 128 6 ipv6_string_from_int ip_int 128))
      | [addr_str, mask_str] \<Rightarrow>
          (case ipv6_int_from_string addr_str of
             None \<Rightarrow> None
           | Some ip_int \<Rightarrow>
               (case make_netmask_v6 mask_str of
                  None \<Rightarrow> None
                | Some prefixlen \<Rightarrow>
                    Some (interface_of 128 6 ipv6_string_from_int ip_int prefixlen)))
      | _ \<Rightarrow> None)"

text \<open>Modelled from the spec: \<open>ipaddress.ip_interface\<close> on a string: IPv4 first, then IPv6,
  else \<open>ValueError\<close>.\<close>

definition ip_interface :: "string \<Rightarrow> error + interface" where
  "ip_interface address =
     (case IPv4Interface address of
        Some interface \<Rightarrow> Inr interface
      | None \<Rightarrow>
          (case IPv6Interface address of
             Some interface \<Rightarrow> Inr interface
           | None \<Rightarrow> Inl ValueError))"

text \<open>Modelled from the spec: the library as \<open>_digest_interface\<close> sees it, on strings.\<close>

definition ipaddress :: library where
  "ipaddress =
     \<lparr>lib_ip_interface = (\<lambda>v. case v of PStr s \<Rightarrow> ip_interface s | _ \<Rightarrow> Inl ValueError),
      lib_repr = (\<lambda>v. [])\<rparr>"

section \<open>Auxiliary notions and example inputs\<close>

text \<open>A field is quiet for a key when resolving it neither draws on the generator nor
  touches the entry of that key in the partial result.\<close>

definition quiet :: "string \<Rightarrow> 's Field \<Rightarrow> bool" where
  "quiet key f \<longleftrightarrow> field_name f \<noteq> key \<and> (\<forall>p. field_default f \<noteq> Producer p) \<and>
     (\<forall>h. field_on_error f = Some h \<longrightarrow>
        (\<forall>raw d s. snd (h raw d s) = s \<and> map_of (snd (fst (h raw d s))) key = map_of d key))"

text \<open>A stand-in for \<open>uuid.uuid1\<close> in the examples: a counter, so that successive
  calls give different strings.\<close>

definition counter_uuid1 :: "nat \<Rightarrow> string \<times> nat" where
  "counter_uuid1 n = (''uuid-'' @ replicate n CHR ''u'', Suc n)"

definition example_network :: pyval where
  "example_network =
     PDict [(ID, PStr ''n1''), (IP_ADDRESS, PStr ''10.0.0.5''), (VERSION, PInt 4),
            (NETMASK, PStr ''255.255.255.0''), (GATEWAY, PStr ''10.0.0.1''),
            (BROADCAST, PStr ''10.0.0.255''), (DNS, PList []), (ASSIGNED_TO, PStr ''l1'')]"

definition example_link :: pyval where
  "example_link =
     PDict [(ID, PStr ''l1''), (NAME, PStr ''eth0''), (TYPE', PHY),
            (MAC_ADDRESS, PStr ''aa:bb:cc:dd:ee:01''), (MTU, PNone), (BOND_LINKS, PNone),
            (BOND_MODE, PNone), (VLAN_ID, PNone), (VLAN_LINK, PNone)]"

definition example_link_extra :: pyval where
  "example_link_extra =
     PDict [(ID, PStr ''l1''), (NAME, PStr ''eth0''), (TYPE', PHY),
            (MAC_ADDRESS, PStr ''aa:bb:cc:dd:ee:01''), (MTU, PNone), (BOND_LINKS, PNone),
            (BOND_MODE, PNone), (VLAN_ID, PNone), (VLAN_LINK, PNone), (''extra'', PInt 1)]"

definition example_Network :: pyval where
  "example_Network =
     PNamed ''Network''
        [(ID, PStr ''n1''), (IP_ADDRESS, PStr ''10.0.0.5''), (VERSION, PInt 4),
         (NETMASK, PStr ''255.255.255.0''), (GATEWAY, PStr ''10.0.0.1''),
         (BROADCAST, PStr ''10.0.0.255''), (DNS, PList []), (ASSIGNED_TO, PStr ''l1'')]"

definition networks_only :: "nat builder" where
  "networks_only = \<lparr>b_links = BufDict [], b_networks = BufList [example_network], b_clock = 0\<rparr>"

definition populated :: "nat builder" where
  "populated = \<lparr>b_links = BufList [example_link], b_networks = BufList [example_network], b_clock = 0\<rparr>"

definition counting_digest :: "nat builder \<Rightarrow> (error + unit) \<times> nat builder" where
  "counting_digest self = (Inr (), self\<lparr>b_clock := Suc (b_clock self)\<rparr>)"

definition example_snapshot :: NetworkDetails where
  "example_snapshot =
     NetworkDetails_init [] [(PStr ''n1'', example_Network)] [(PStr ''l1'', PList [PStr ''n1''])]"

definition dangling_network :: pyrecord where
  "dangling_network =
     [(ID, PStr ''n1''), (IP_ADDRESS, PStr ''10.0.0.5''), (NETMASK, PStr ''255.255.255.0''),
      (GATEWAY, PStr ''10.0.0.1''), (''type'', PStr ''ipv4''), (''link'', PStr ''eth9'')]"

definition http_dangling :: "nat http_builder" where
  "http_dangling =
     \<lparr>b_links = BufDict [], b_networks = BufDict [], b_clock = 0,
      b_network_data = \<lparr>data_links = Some [], data_networks = Some [dangling_network]\<rparr>,
      b_invalid_links = []\<rparr>"

definition http_one_link :: "nat http_builder" where
  "http_one_link =
     \<lparr>b_links = BufDict [], b_networks = BufDict [], b_clock = 0,
      b_network_data =
        \<lparr>data_links = Some [[(ID, PStr ''eth0''), (''ethernet_mac_address'', PStr ''aa:bb:cc:dd:ee:01'')]],
         data_networks = Some []\<rparr>,
      b_invalid_links = []\<rparr>"

text \<open>A library that rejects every address, for the examples that never reach it.\<close>

definition rejecting_library :: library where
  "rejecting_library = \<lparr>lib_ip_interface = (\<lambda>v. Inl ValueError), lib_repr = (\<lambda>v. [])\<rparr>"

definition attr_of :: "pyval \<Rightarrow> string \<Rightarrow> pyval" where
  "attr_of v a = (case py_getattr v a of Inr x \<Rightarrow> x | Inl e \<Rightarrow> PNone)"

definition item_of :: "pyval \<Rightarrow> string \<Rightarrow> pyval" where
  "item_of v key = (case py_getitem v key of Inr x \<Rightarrow> x | Inl e \<Rightarrow> PNone)"

definition py_distinct :: "pyval list \<Rightarrow> bool" where
  "py_distinct xs = distinct (map canon xs)"

definition networks_after :: "pyval list \<Rightarrow> pyval pydict \<Rightarrow> pyval \<Rightarrow> pyval option" where
  "networks_after raws networks k =
     (case find (\<lambda>r. py_eq (item_of r ID) k) (rev raws) of
        Some r \<Rightarrow> (case Network_new r of Inr n \<Rightarrow> Some n | Inl e \<Rightarrow> None)
      | None \<Rightarrow> dict_lookup networks k)"

definition bucket_of :: "pyval list \<Rightarrow> pyval \<Rightarrow> pyval list" where
  "bucket_of raws k =
     map (\<lambda>r. item_of r ID) (filter (\<lambda>r. py_eq (item_of r ASSIGNED_TO) k) raws)"

definition references_after :: "pyval list \<Rightarrow> pyval list pydict \<Rightarrow> pyval \<Rightarrow> pyval list option" where
  "references_after raws references k =
     (if bucket_of raws k = [] then dict_lookup references k
      else Some ((case dict_lookup references k of None \<Rightarrow> [] | Some b \<Rightarrow> b) @ bucket_of raws k))"

definition raw_network_of :: "string \<Rightarrow> string \<Rightarrow> pyval" where
  "raw_network_of network_id link_id =
     PDict [(ID, PStr network_id), (IP_ADDRESS, PStr ''10.0.0.5''), (VERSION, PInt 4),
            (NETMASK, PStr ''255.255.255.0''), (GATEWAY, PStr ''10.0.0.1''),
            (BROADCAST, PStr ''10.0.0.255''), (DNS, PList []), (ASSIGNED_TO, PStr link_id)]"

definition Network_of :: "string \<Rightarrow> string \<Rightarrow> pyval" where
  "Network_of network_id link_id =
     PNamed ''Network''
       [(ID, PStr network_id), (IP_ADDRESS, PStr ''10.0.0.5''), (VERSION, PInt 4),
        (NETMASK, PStr ''255.255.255.0''), (GATEWAY, PStr ''10.0.0.1''),
        (BROADCAST, PStr ''10.0.0.255''), (DNS, PList []), (ASSIGNED_TO, PStr link_id)]"

definition link_outcome ::
  "'os osutils \<Rightarrow> NetworkDetails \<Rightarrow> pyval \<Rightarrow> 'os \<Rightarrow> (error + bool) \<times> 'os" where
  "link_outcome osutils network_details link_id os =
     (case get_link network_details link_id of
        Inl e \<Rightarrow> (Inl e, os)
      | Inr link \<Rightarrow> configure_interface osutils network_details link os)"

fun outcomes ::
  "'os osutils \<Rightarrow> NetworkDetails \<Rightarrow> pyval list \<Rightarrow> 'os \<Rightarrow> (error + bool) list" where
  "outcomes osutils network_details [] os = []"
| "outcomes osutils network_details (link_id # rest) os =
     (case link_outcome osutils network_details link_id os of
        (r, os') \<Rightarrow> r # outcomes osutils network_details rest os')"

definition absorbed :: "error + bool \<Rightarrow> bool" where
  "absorbed r = (case r of Inl e \<Rightarrow> e = NetworkDetailsError | Inr b \<Rightarrow> True)"

definition Link_of :: "string \<Rightarrow> string \<Rightarrow> string \<Rightarrow> pyval" where
  "Link_of link_id link_type mac =
     PNamed ''Link''
       [(ID, PStr link_id), (NAME, PStr link_id), (TYPE', PStr link_type),
        (MAC_ADDRESS, PStr mac), (MTU, PNone), (BOND_LINKS, PNone), (BOND_MODE, PNone),
        (VLAN_ID, PNone), (VLAN_LINK, PNone)]"

definition three_links :: NetworkDetails where
  "three_links =
     \<lparr>nd_assigned_to = [(PStr ''l1'', PList [PStr ''n1'']), (PStr ''l3'', PList [PStr ''n3''])],
      nd_links = [(PStr ''l1'', Link_of ''l1'' ''phy'' ''aa:bb:cc:dd:ee:01''),
                  (PStr ''l2'', Link_of ''l2'' ''bond'' ''aa:bb:cc:dd:ee:02''),
                  (PStr ''l3'', Link_of ''l3'' ''phy'' ''aa:bb:cc:dd:ee:03'')],
      nd_networks = [(PStr ''n1'', Network_of ''n1'' ''l1''), (PStr ''n3'', Network_of ''n3'' ''l3'')]\<rparr>"

definition one_link :: NetworkDetails where
  "one_link =
     \<lparr>nd_assigned_to = [(PStr ''l1'', PList [PStr ''n1''])],
      nd_links = [(PStr ''l1'', Link_of ''l1'' ''phy'' ''aa:bb:cc:dd:ee:01'')],
      nd_networks = [(PStr ''n1'', Network_of ''n1'' ''l1'')]\<rparr>"

definition quiet_os :: "unit osutils" where
  "quiet_os =
     \<lparr>set_static_network_config =
        (\<lambda>mac_address address netmask broadcast gateway dnsnameservers os. (Inr False, os)),
      set_static_network_config_v6 =
        (\<lambda>mac_address address6 netmask6 gateway6 os. (Inr (), os))\<rparr>"

definition failing_os :: "unit osutils" where
  "failing_os =
     \<lparr>set_static_network_config =
        (\<lambda>mac_address address netmask broadcast gateway dnsnameservers os.
           (Inl CloudbaseInitException, os)),
      set_static_network_config_v6 =
        (\<lambda>mac_address address6 netmask6 gateway6 os. (Inl CloudbaseInitException, os))\<rparr>"

text \<open>The netmask and the hostmask of a prefix length in closed form, and the record
  that standard interface arithmetic gives for an address and a prefix length: the
  broadcast address is the address with the network bits kept and the host bits set.\<close>

definition netmask_of :: "nat \<Rightarrow> nat \<Rightarrow> int" where
  "netmask_of max_prefixlen prefixlen = 2 ^ max_prefixlen - 2 ^ (max_prefixlen - prefixlen)"

definition hostmask_of :: "nat \<Rightarrow> nat \<Rightarrow> int" where
  "hostmask_of max_prefixlen prefixlen = 2 ^ (max_prefixlen - prefixlen) - 1"

definition standard_interface ::
  "nat \<Rightarrow> int \<Rightarrow> (int \<Rightarrow> string) \<Rightarrow> int \<Rightarrow> nat \<Rightarrow> pyrecord" where
  "standard_interface max_prefixlen ip_version to_string ip_int prefixlen =
     [(BROADCAST, PStr (to_string ((ip_int AND netmask_of max_prefixlen prefixlen) OR
                                    hostmask_of max_prefixlen prefixlen))),
      (NETMASK, PStr (to_string (netmask_of max_prefixlen prefixlen))),
      (IP_ADDRESS, PStr (to_string ip_int)),
      (VERSION, PInt ip_version)]"

section \<open>Properties\<close>

subsection \<open>Field resolution\<close>

lemma get_field_error: "get_field field raw_data s = (Inl e, s') \<Longrightarrow> e = NetworkDetailsError \<and> s' = s"
  by (auto simp: get_field_def split: option.splits if_splits default.splits prod.splits)

lemma find_alias_absent: "\<forall>a \<in> set as. map_of raw_data a = None \<Longrightarrow> find_alias as raw_data = None"
  by (induction as) auto







lemma get_field_producer:
  assumes "\<not> field_required field" and "field_default field = Producer produce"
    and "\<forall>a \<in> set (aliases field). map_of raw_data a = None"
  shows "get_field field raw_data s = (Inr (field_name field, fst (produce s)), snd (produce s))"
  using assms by (simp add: get_field_def find_alias_absent split: prod.splits)


lemma map_of_record_store: "map_of (record_store d k v) = (map_of d)(k \<mapsto> v)"
  by (induction d k v rule: record_store.induct) auto

lemma get_field_value_state:
  "\<forall>p. field_default f \<noteq> Producer p \<Longrightarrow> snd (get_field f raw s) = s"
  by (auto simp: get_field_def split: option.splits default.splits)

lemma get_field_name: "get_field f raw s = (Inr (n, v), s') \<Longrightarrow> n = field_name f"
  by (auto simp: get_field_def split: option.splits default.splits if_splits prod.splits)

lemma get_fields_loop_quiet:
  assumes "\<forall>f \<in> set fl. quiet key f"
    and "get_fields_loop fl raw data s = (Inr (Some d), s')"
  shows "map_of d key = map_of data key \<and> s' = s"
  using assms
proof (induction fl arbitrary: data s)
  case Nil
  then show ?case by simp
next
  case (Cons f fl)
  have q: "quiet key f" and qs: "\<forall>f \<in> set fl. quiet key f" using Cons.prems(1) by simp_all
  obtain r s1 where gf: "get_field f raw s = (r, s1)" by (metis surj_pair)
  have s1: "s1 = s" using get_field_value_state[of f raw s] q gf by (simp add: quiet_def)
  show ?case
  proof (cases r)
    case (Inr nv)
    obtain n v where nv: "nv = (n, v)" by (metis surj_pair)
    have n: "n = field_name f" using gf Inr nv get_field_name[of f raw s n v s1] by simp
    have "get_fields_loop fl raw (record_store data n v) s = (Inr (Some d), s')"
      using Cons.prems(2) gf Inr nv s1 by simp
    from Cons.IH[OF qs this] show ?thesis using q n by (auto simp: map_of_record_store quiet_def)
  next
    case (Inl e)
    then have e: "e = NetworkDetailsError" using gf get_field_error[of f raw s e s1] by simp
    show ?thesis
    proof (cases "field_on_error f")
      case None
      then show ?thesis using Cons.prems(2) gf Inl e by simp
    next
      case (Some h)
      obtain ok d1 s2 where h: "h raw data s = ((ok, d1), s2)" by (metis surj_pair)
      have "\<forall>raw d s. snd (h raw d s) = s \<and> map_of (snd (fst (h raw d s))) key = map_of d key"
        using q Some by (simp add: quiet_def)
      from this[rule_format, of raw data s] have keep: "s2 = s" "map_of d1 key = map_of data key"
        using h by simp_all
      have ok: ok using Cons.prems(2) gf Inl e Some h s1 by (auto split: if_splits)
      then have "get_fields_loop fl raw d1 s = (Inr (Some d), s')"
        using Cons.prems(2) gf Inl e Some h s1 keep by simp
      from Cons.IH[OF qs this] show ?thesis using keep by simp
    qed
  qed
qed

lemma on_mac_not_found_quiet:
  assumes "\<forall>p. field_default nf \<noteq> Producer p"
  shows "snd (on_mac_not_found nf adapters raw d s) = s \<and>
         map_of (snd (fst (on_mac_not_found nf adapters raw d s))) ID = map_of d ID"
proof -
  have "snd (get_field nf raw s) = s" using assms by (rule get_field_value_state)
  then show ?thesis
    by (auto simp: on_mac_not_found_def Let_def map_of_record_store split: prod.splits sum.splits option.splits)
qed

lemma Field_new_sel:
  "field_name (Field_new n a d r h) = n"
  "field_alias (Field_new n a d r h) = a"
  "field_default (Field_new n a d r h) = d"
  "field_required (Field_new n a d r h) = r"
  "field_on_error (Field_new n a d r h) = h"
  by (simp_all add: Field_new_def)

lemma builder_link_shape:
  "\<exists>rest. map snd (builder_link uuid1 adapters) =
            Field_new ID NoAlias (Producer (new_id uuid1)) False None # rest \<and>
          (\<forall>f \<in> set rest. quiet ID f)"
  by (simp add: builder_link_def base_link_def quiet_def Field_new_sel on_mac_not_found_quiet)

lemma get_fields_loop_step:
  "get_field f raw s = (Inr (n, v), s') \<Longrightarrow>
   get_fields_loop (f # fl) raw data s = get_fields_loop fl raw (record_store data n v) s'"
  by simp

lemma get_field_id:
  "map_of raw ID = None \<Longrightarrow>
   get_field (Field_new ID NoAlias (Producer (new_id uuid1)) False None) raw s =
     (Inr (ID, PStr (fst (uuid1 s))), snd (uuid1 s))"
  by (simp add: get_field_def aliases_def Field_new_sel new_id_def split: prod.splits)

lemma link_ids:
  assumes "map_of raw ID = None"
    and "get_fields (map snd (builder_link uuid1 adapters)) raw s = (Inr (Some d), s')"
  shows "map_of d ID = Some (PStr (fst (uuid1 s))) \<and> s' = snd (uuid1 s)"
proof -
  obtain rest where shape: "map snd (builder_link uuid1 adapters) =
            Field_new ID NoAlias (Producer (new_id uuid1)) False None # rest"
    and q: "\<forall>f \<in> set rest. quiet ID f"
    using builder_link_shape[of uuid1 adapters] by auto
  have "get_fields_loop rest raw (record_store [] ID (PStr (fst (uuid1 s)))) (snd (uuid1 s)) =
        (Inr (Some d), s')"
    using assms(2) unfolding get_fields_def shape
    by (simp only: get_fields_loop_step[OF get_field_id[OF assms(1)]])
  from get_fields_loop_quiet[OF q this] show ?thesis by simp
qed

lemma get_field_resolves:
  assumes "\<not> field_required f \<or> find_alias (aliases f) raw \<noteq> None"
  shows "\<exists>v s'. get_field f raw s = (Inr (field_name f, v), s')"
proof (cases "find_alias (aliases f) raw")
  case (Some v)
  then show ?thesis by (simp add: get_field_def)
next
  case None
  with assms have nr: "\<not> field_required f" by simp
  show ?thesis
  proof (cases "field_default f")
    case (Value v)
    with None nr show ?thesis by (simp add: get_field_def)
  next
    case (Producer produce)
    obtain v s' where "produce s = (v, s')" by (metis surj_pair)
    with None nr Producer show ?thesis by (simp add: get_field_def)
  qed
qed

lemma get_fields_loop_resolves:
  assumes "\<forall>f \<in> set fl. \<not> field_required f \<or> find_alias (aliases f) raw \<noteq> None"
  shows "\<exists>d s'. get_fields_loop fl raw data s = (Inr (Some d), s')"
  using assms
proof (induction fl arbitrary: data s)
  case Nil
  then show ?case by simp
next
  case (Cons f fl)
  have "\<not> field_required f \<or> find_alias (aliases f) raw \<noteq> None" using Cons.prems by simp
  from get_field_resolves[OF this, of s]
  obtain v s1 where gf: "get_field f raw s = (Inr (field_name f, v), s1)" by blast
  have "\<forall>f \<in> set fl. \<not> field_required f \<or> find_alias (aliases f) raw \<noteq> None"
    using Cons.prems by simp
  from Cons.IH[OF this, of "record_store data (field_name f) v" s1]
  show ?case by (simp only: get_fields_loop_step[OF gf])
qed

lemma builder_link_resolves:
  assumes "map_of raw NAME \<noteq> None" and "map_of raw MAC_ADDRESS \<noteq> None"
  shows "\<exists>d s'. get_fields (map snd (builder_link uuid1 adapters)) raw s = (Inr (Some d), s')"
proof -
  have "\<forall>f \<in> set (map snd (builder_link uuid1 adapters)).
          \<not> field_required f \<or> find_alias (aliases f) raw \<noteq> None"
    using assms
    by (auto simp: builder_link_def base_link_def Field_new_sel aliases_def)
  from get_fields_loop_resolves[OF this] show ?thesis by (simp only: get_fields_def)
qed

lemma link_receives_id:
  assumes "map_of raw ID = None"
    and "map_of raw NAME \<noteq> None" and "map_of raw MAC_ADDRESS \<noteq> None"
  shows "\<exists>d. get_fields (map snd (builder_link uuid1 adapters)) raw s =
               (Inr (Some d), snd (uuid1 s)) \<and>
             map_of d ID = Some (PStr (fst (uuid1 s)))"
proof -
  from builder_link_resolves[OF assms(2,3), of uuid1 adapters s]
  obtain d s' where r: "get_fields (map snd (builder_link uuid1 adapters)) raw s = (Inr (Some d), s')"
    by blast
  from link_ids[OF assms(1) r] have "map_of d ID = Some (PStr (fst (uuid1 s)))" "s' = snd (uuid1 s)"
    by simp_all
  with r show ?thesis by simp
qed

text \<open>
  C9. A field that is not required and whose default is a callable: when the raw record
  has none of its names, \<open>_get_field\<close> calls the producer on the current state and
  returns what it gives, with the state the call left. So two raw link records that have
  a name and a MAC address and no id, resolved one after the other against the link
  table by \<open>_get_fields\<close>, are both resolved, the first with the id generated at the
  starting state and the second with the id generated at the state the first call left:
  two different ids, as soon as the generator does not repeat itself from one call to the
  next.
\<close>

theorem producer_default_fresh_per_call:
  "(\<not> field_required field \<and> field_default field = Producer produce \<and>
    (\<forall>a \<in> set (aliases field). map_of raw_data a = None)
      \<longrightarrow> get_field field raw_data s = (Inr (field_name field, fst (produce s)), snd (produce s)))
   \<and> (map_of raw_link1 ID = None \<and> map_of raw_link2 ID = None \<and>
      map_of raw_link1 NAME \<noteq> None \<and> map_of raw_link1 MAC_ADDRESS \<noteq> None \<and>
      map_of raw_link2 NAME \<noteq> None \<and> map_of raw_link2 MAC_ADDRESS \<noteq> None \<and>
      fst (uuid1 (snd (uuid1 s))) \<noteq> fst (uuid1 s)
      \<longrightarrow> (\<exists>link1 link2.
            get_fields (map snd (builder_link uuid1 adapters)) raw_link1 s =
              (Inr (Some link1), snd (uuid1 s)) \<and>
            get_fields (map snd (builder_link uuid1 adapters)) raw_link2 (snd (uuid1 s)) =
              (Inr (Some link2), snd (uuid1 (snd (uuid1 s)))) \<and>
            map_of link1 ID = Some (PStr (fst (uuid1 s))) \<and>
            map_of link2 ID = Some (PStr (fst (uuid1 (snd (uuid1 s))))) \<and>
            map_of link1 ID \<noteq> map_of link2 ID))"
proof (intro conjI impI)
  assume "\<not> field_required field \<and> field_default field = Producer produce \<and>
    (\<forall>a \<in> set (aliases field). map_of raw_data a = None)"
  then show "get_field field raw_data s = (Inr (field_name field, fst (produce s)), snd (produce s))"
    by (simp add: get_field_producer)
next
  assume a: "map_of raw_link1 ID = None \<and> map_of raw_link2 ID = None \<and>
      map_of raw_link1 NAME \<noteq> None \<and> map_of raw_link1 MAC_ADDRESS \<noteq> None \<and>
      map_of raw_link2 NAME \<noteq> None \<and> map_of raw_link2 MAC_ADDRESS \<noteq> None \<and>
      fst (uuid1 (snd (uuid1 s))) \<noteq> fst (uuid1 s)"
  from a link_receives_id[of raw_link1 uuid1 adapters s]
  obtain link1 where l1:
    "get_fields (map snd (builder_link uuid1 adapters)) raw_link1 s = (Inr (Some link1), snd (uuid1 s))"
    "map_of link1 ID = Some (PStr (fst (uuid1 s)))"
    by blast
  from a link_receives_id[of raw_link2 uuid1 adapters "snd (uuid1 s)"]
  obtain link2 where l2:
    "get_fields (map snd (builder_link uuid1 adapters)) raw_link2 (snd (uuid1 s)) =
       (Inr (Some link2), snd (uuid1 (snd (uuid1 s))))"
    "map_of link2 ID = Some (PStr (fst (uuid1 (snd (uuid1 s)))))"
    by blast
  have "map_of link1 ID \<noteq> map_of link2 ID" using l1(2) l2(2) a by auto
  with l1 l2 show "\<exists>link1 link2.
            get_fields (map snd (builder_link uuid1 adapters)) raw_link1 s =
              (Inr (Some link1), snd (uuid1 s)) \<and>
            get_fields (map snd (builder_link uuid1 adapters)) raw_link2 (snd (uuid1 s)) =
              (Inr (Some link2), snd (uuid1 (snd (uuid1 s)))) \<and>
            map_of link1 ID = Some (PStr (fst (uuid1 s))) \<and>
            map_of link2 ID = Some (PStr (fst (uuid1 (snd (uuid1 s))))) \<and>
            map_of link1 ID \<noteq> map_of link2 ID"
    by blast
qed

lemma ex_link1:
  "get_fields (map snd (builder_link counter_uuid1 []))
      [(NAME, PStr ''eth0''), (MAC_ADDRESS, PStr ''aa:bb:cc:dd:ee:01'')] 0 =
   (Inr (Some [(ID, PStr ''uuid-''), (NAME, PStr ''eth0''), (MAC_ADDRESS, PStr ''aa:bb:cc:dd:ee:01''),
               (TYPE', PHY), (MTU, PNone), (BOND_LINKS, PNone), (BOND_MODE, PNone),
               (VLAN_ID, PNone), (VLAN_LINK, PNone)]), Suc 0)"
  by (simp add: get_fields_def builder_link_def base_link_def Field_new_def get_field_def
        aliases_def new_id_def counter_uuid1_def)

lemma ex_link2:
  "get_fields (map snd (builder_link counter_uuid1 []))
      [(NAME, PStr ''eth1''), (MAC_ADDRESS, PStr ''aa:bb:cc:dd:ee:02'')] (Suc 0) =
   (Inr (Some [(ID, PStr ''uuid-u''), (NAME, PStr ''eth1''), (MAC_ADDRESS, PStr ''aa:bb:cc:dd:ee:02''),
               (TYPE', PHY), (MTU, PNone), (BOND_LINKS, PNone), (BOND_MODE, PNone),
               (VLAN_ID, PNone), (VLAN_LINK, PNone)]), Suc (Suc 0))"
  by (simp add: get_fields_def builder_link_def base_link_def Field_new_def get_field_def
        aliases_def new_id_def counter_uuid1_def)

lemma counter_uuid1_values:
  "counter_uuid1 0 = (''uuid-'', Suc 0)"
  "counter_uuid1 (Suc 0) = (''uuid-u'', Suc (Suc 0))"
  by (simp_all add: counter_uuid1_def)

text \<open>
  Two link records without an id, with the counter as generator: the single field gives
  the first generated id, and \<open>_get_fields\<close> resolves the two records, one after the
  other, with the first and the second generated id.
\<close>

theorem producer_default_fresh_per_call_witness:
  "get_field (Field_new ID NoAlias (Producer (new_id counter_uuid1)) False None)
      [(NAME, PStr ''eth0'')] 0 = (Inr (ID, PStr ''uuid-''), Suc 0)
   \<and> get_fields (map snd (builder_link counter_uuid1 []))
        [(NAME, PStr ''eth0''), (MAC_ADDRESS, PStr ''aa:bb:cc:dd:ee:01'')] 0 =
      (Inr (Some [(ID, PStr ''uuid-''), (NAME, PStr ''eth0''),
                  (MAC_ADDRESS, PStr ''aa:bb:cc:dd:ee:01''),
                  (TYPE', PHY), (MTU, PNone), (BOND_LINKS, PNone), (BOND_MODE, PNone),
                  (VLAN_ID, PNone), (VLAN_LINK, PNone)]), Suc 0)
   \<and> get_fields (map snd (builder_link counter_uuid1 []))
        [(NAME, PStr ''eth1''), (MAC_ADDRESS, PStr ''aa:bb:cc:dd:ee:02'')] (Suc 0) =
      (Inr (Some [(ID, PStr ''uuid-u''), (NAME, PStr ''eth1''),
                  (MAC_ADDRESS, PStr ''aa:bb:cc:dd:ee:02''),
                  (TYPE', PHY), (MTU, PNone), (BOND_LINKS, PNone), (BOND_MODE, PNone),
                  (VLAN_ID, PNone), (VLAN_LINK, PNone)]), Suc (Suc 0))
   \<and> (\<exists>link1 link2.
         get_fields (map snd (builder_link counter_uuid1 []))
           [(NAME, PStr ''eth0''), (MAC_ADDRESS, PStr ''aa:bb:cc:dd:ee:01'')] 0 =
             (Inr (Some link1), Suc 0) \<and>
         get_fields (map snd (builder_link counter_uuid1 []))
           [(NAME, PStr ''eth1''), (MAC_ADDRESS, PStr ''aa:bb:cc:dd:ee:02'')] (Suc 0) =
             (Inr (Some link2), Suc (Suc 0)) \<and>
         map_of link1 ID = Some (PStr ''uuid-'') \<and>
         map_of link2 ID = Some (PStr ''uuid-u'') \<and>
         map_of link1 ID \<noteq> map_of link2 ID)"
proof -
  note t = producer_default_fresh_per_call
    [of "Field_new ID NoAlias (Producer (new_id counter_uuid1)) False None"
        "new_id counter_uuid1" "[(NAME, PStr ''eth0'')]" 0
        "[(NAME, PStr ''eth0''), (MAC_ADDRESS, PStr ''aa:bb:cc:dd:ee:01'')]"
        "[(NAME, PStr ''eth1''), (MAC_ADDRESS, PStr ''aa:bb:cc:dd:ee:02'')]"
        counter_uuid1 "[]"]
  from t have "get_field (Field_new ID NoAlias (Producer (new_id counter_uuid1)) False None)
      [(NAME, PStr ''eth0'')] 0 = (Inr (ID, PStr ''uuid-''), Suc 0)"
    by (simp add: Field_new_sel aliases_def new_id_def counter_uuid1_values)
  moreover from t have "\<exists>link1 link2.
         get_fields (map snd (builder_link counter_uuid1 []))
           [(NAME, PStr ''eth0''), (MAC_ADDRESS, PStr ''aa:bb:cc:dd:ee:01'')] 0 =
             (Inr (Some link1), Suc 0) \<and>
         get_fields (map snd (builder_link counter_uuid1 []))
           [(NAME, PStr ''eth1''), (MAC_ADDRESS, PStr ''aa:bb:cc:dd:ee:02'')] (Suc 0) =
             (Inr (Some link2), Suc (Suc 0)) \<and>
         map_of link1 ID = Some (PStr ''uuid-'') \<and>
         map_of link2 ID = Some (PStr ''uuid-u'') \<and>
         map_of link1 ID \<noteq> map_of link2 ID"
    by (simp add: counter_uuid1_values)
  ultimately show ?thesis using ex_link1 ex_link2 by simp
qed

subsection \<open>The MAC address hook\<close>

text \<open>
  \<open>_on_mac_not_found\<close> compares each adapter name with the pair \<open>(field name, value)\<close>
  that \<open>_get_field\<close> returned, not with the value: a string is never equal to a tuple,
  so with adapters named by strings the hook finds nothing, whatever the record.
\<close>

lemma py_eq_str_tuple: "\<not> py_eq (PStr a) (PTuple xs)"
  by (simp add: py_eq_def)

lemma find_adapter_strings:
  "\<forall>p \<in> set adapters. \<exists>a. fst p = PStr a \<Longrightarrow> find_adapter adapters (PTuple xs) = None"
  by (induction adapters) (auto simp: py_eq_str_tuple)

lemma on_mac_not_found_never_matches:
  assumes "\<forall>p \<in> set adapters. \<exists>a. fst p = PStr a"
  shows "fst (on_mac_not_found name_field adapters raw_data output s) = (False, output)"
  by (simp add: on_mac_not_found_def Let_def find_adapter_strings[OF assms]
        split: prod.splits sum.splits)

text \<open>
  C5. The link record \<open>{"name": "eth0"}\<close> has no MAC address and the host has an
  adapter named \<open>eth0\<close>: the hook answers false and leaves the partial record as it
  was, where the adapter's address was to be stored under \<open>mac_address\<close>.
\<close>

theorem on_mac_not_found_misses_adapter:
  "on_mac_not_found (Field_new NAME NoAlias (Value PNone) True None)
     [(PStr ''eth0'', PStr ''aa:bb:cc:dd:ee:01'')]
     [(NAME, PStr ''eth0'')] [(ID, PStr ''l1''), (NAME, PStr ''eth0'')] s =
   ((False, [(ID, PStr ''l1''), (NAME, PStr ''eth0'')]), s)"
  by (simp add: on_mac_not_found_def get_field_def aliases_def Field_new_def py_eq_def)

subsection \<open>The digests and the snapshot\<close>

lemma Network_new_example: "Network_new example_network = Inr example_Network"
  by (simp add: Network_new_def namedtuple_new_def Network_fields_def example_network_def example_Network_def)

lemma digest_networks_example:
  "digest_networks (BufList [example_network]) =
     Inr ([(PStr ''n1'', example_Network)], [(PStr ''l1'', [PStr ''n1''])])"
  by (simp add: digest_networks_def Network_new_example)
     (simp add: example_Network_def dict_setitem_def setdefault_append_def)

text \<open>
  C1. A builder whose \<open>_digest\<close> leaves no raw link and one raw network \<open>n1\<close>
  assigned to \<open>l1\<close>. \<open>get_network_details\<close> returns a snapshot built from no
  links, the network \<open>n1\<close> and the reference \<open>l1 \<mapsto> [n1]\<close>. The constructor stores
  \<open>raw_links\<close> in \<open>_assigned_to\<close>, \<open>raw_networks\<close> in \<open>_links\<close> and \<open>raw_references\<close>
  in \<open>_networks\<close>, so on this snapshot \<open>get_network("n1")\<close> is \<open>None\<close>, \<open>get_links()\<close>
  lists the network id \<open>n1\<close>, \<open>get_link("n1")\<close> is the network, and
  \<open>get_networks("l1")\<close> is \<open>None\<close>.
\<close>

theorem snapshot_getters_read_other_mappings:
  "get_network_details lib counting_digest networks_only =
     (Inr example_snapshot, networks_only\<lparr>b_clock := 1\<rparr>) \<and>
   get_network example_snapshot (PStr ''n1'') = Inr PNone \<and>
   get_links example_snapshot = [PStr ''n1''] \<and>
   get_link example_snapshot (PStr ''n1'') = Inr example_Network \<and>
   get_networks example_snapshot (PStr ''l1'') = Inr PNone"
  by (simp add: get_network_details_def counting_digest_def networks_only_def digest_links_def
        dict_keys_def digest_networks_example example_snapshot_def NetworkDetails_init_def
        get_network_def get_links_def get_link_def get_networks_def dict_get_def py_eq_def)

text \<open>The same call with the library that rejects every address.\<close>

theorem snapshot_getters_read_other_mappings_witness:
  "get_network_details rejecting_library counting_digest networks_only =
     (Inr example_snapshot, networks_only\<lparr>b_clock := 1\<rparr>) \<and>
   get_network example_snapshot (PStr ''n1'') = Inr PNone"
  using snapshot_getters_read_other_mappings [of rejecting_library] by simp

text \<open>
  C6. A raw link record with the nine fields of \<open>Link\<close> and one key more. In a list
  buffer \<open>_digest_links\<close> raises \<open>KeyError\<close>, from \<open>raw_link[IP_ADDRESS]\<close>, before the
  constructor is tried; in a dict buffer the loop runs over the keys and raises
  \<open>AttributeError\<close>, a string having no \<open>update\<close>. Neither is \<open>NetworkDetailsError\<close>.
\<close>

theorem digest_links_leftover_key_raises_KeyError:
  "digest_links lib (BufList [example_link_extra]) = (Inl KeyError, BufList [example_link_extra]) \<and>
   digest_links lib (BufDict [(PStr ''l1'', example_link_extra)]) =
     (Inl AttributeError, BufDict [(PStr ''l1'', example_link_extra)])"
  by (simp add: digest_links_def example_link_extra_def dict_keys_def)

text \<open>
  C8. A builder with one raw link and one raw network in its buffers: \<open>_digest\<close> is
  not called (the state is unchanged, where \<open>counting_digest\<close> would have advanced the
  counter), and the call raises \<open>KeyError\<close> where a snapshot was to be returned.
\<close>

theorem populated_builder_raises:
  "get_network_details lib counting_digest populated = (Inl KeyError, populated)"
  by (simp add: get_network_details_def populated_def digest_links_def example_link_def)

text \<open>The same call with the library that rejects every address.\<close>

theorem populated_builder_raises_witness:
  "get_network_details rejecting_library counting_digest populated = (Inl KeyError, populated)"
  using populated_builder_raises [of rejecting_library] by simp

text \<open>
  \<open>_digest_links\<close> never gets past its first item: when \<open>raw_link.update(...)\<close> has
  run, the record holds the key \<open>broadcast\<close>, which \<open>Link\<close> does not take, and
  every other path raises earlier. So \<open>get_network_details\<close> raises whenever it is
  called with both buffers filled, and a snapshot it returns has no link.
\<close>

lemma keys_record_store: "fst ` set (record_store d k v) = insert k (fst ` set d)"
  by (induction d k v rule: record_store.induct) auto

lemma keys_record_update: "fst ` set (record_update d e) = fst ` set d \<union> fst ` set e"
  by (induction d e rule: record_update.induct) (auto simp: keys_record_store)

lemma Link_new_after_update:
  "digest_interface lib ip_address netmask = Inr derived \<Longrightarrow>
   Link_new (PDict (record_update kvs derived)) = Inl TypeError"
proof -
  assume "digest_interface lib ip_address netmask = Inr derived"
  then have "BROADCAST \<in> fst ` set derived"
    by (auto simp: digest_interface_def Let_def split: sum.splits)
  then have "BROADCAST \<in> fst ` set (record_update kvs derived)"
    by (simp add: keys_record_update)
  then have "\<exists>k \<in> set (map fst (record_update kvs derived)). k \<notin> set Link_fields"
    by (intro bexI[of _ BROADCAST]) (simp_all add: Link_fields_def)
  then have "\<not> list_all (\<lambda>k. k \<in> set Link_fields) (map fst (record_update kvs derived))"
    unfolding list_all_iff by blast
  then show ?thesis by (simp add: Link_new_def namedtuple_new_def)
qed

lemma digest_links_loop_raises:
  "\<exists>e. fst (digest_links_loop lib (raw_link # rest) done links) = Inl e"
  by (auto simp: Let_def Link_new_after_update split: pyval.splits sum.splits)

lemma digest_links_raises:
  "buffer_truthy buf \<Longrightarrow> \<exists>e. fst (digest_links lib buf) = Inl e"
proof (cases buf)
  case (BufDict d)
  assume "buffer_truthy buf"
  then obtain k ks where "dict_keys d = k # ks" using BufDict by (cases d) (auto simp: dict_keys_def)
  then show ?thesis using BufDict digest_links_loop_raises[of lib k ks "[]" "[]"]
    by (auto simp: digest_links_def split: prod.splits)
next
  case (BufList xs)
  assume "buffer_truthy buf"
  then obtain y ys where "xs = y # ys" using BufList by (cases xs) auto
  then show ?thesis using BufList digest_links_loop_raises[of lib y ys "[]" "[]"]
    by (auto simp: digest_links_def split: prod.splits)
qed

lemma get_network_details_populated:
  assumes "buffer_truthy (b_links self)" and "buffer_truthy (b_networks self)"
  shows "\<exists>e. fst (get_network_details lib digest self) = Inl e"
proof -
  obtain e where "fst (digest_links lib (b_links self)) = Inl e"
    using digest_links_raises[OF assms(1)] by blast
  then show ?thesis using assms
    by (auto simp: get_network_details_def split: prod.splits sum.splits)
qed

lemma get_network_details_returns_empty_links:
  assumes "get_network_details lib digest self = (Inr snapshot, self')"
  shows "nd_assigned_to snapshot = [] \<and> \<not> buffer_truthy (b_links self')"
proof -
  obtain r self1 where d: "(if \<not> buffer_truthy (b_links self) \<or> \<not> buffer_truthy (b_networks self)
            then digest self else (Inr (), self)) = (r, self1)" by (metis surj_pair)
  obtain rl buf where dl: "digest_links lib (b_links self1) = (rl, buf)" by (metis surj_pair)
  have nt: "\<not> buffer_truthy (b_links self1)"
  proof
    assume "buffer_truthy (b_links self1)"
    from digest_links_raises[OF this, of lib] dl obtain e where "rl = Inl e" by auto
    then show False using assms d dl
      by (auto simp: get_network_details_def split: sum.splits)
  qed
  then have "digest_links lib (b_links self1) = (Inr [], b_links self1)"
    by (cases "b_links self1") (auto simp: digest_links_def dict_keys_def)
  then show ?thesis using assms d nt
    by (auto simp: get_network_details_def NetworkDetails_init_def split: sum.splits prod.splits)
qed

lemma http_network_fields:
  "map snd (http_network uuid1) =
     [Field_new ID NoAlias (Producer (new_id uuid1)) False None,
      Field_new IP_ADDRESS NoAlias (Value PNone) True None,
      Field_new VERSION (Alias ''type'') (Value (PInt 4)) True None,
      Field_new NETMASK NoAlias (Value PNone) True None,
      Field_new GATEWAY NoAlias (Value PNone) True None,
      Field_new BROADCAST NoAlias (Value PNone) False None,
      Field_new DNS NoAlias (Value (PList [])) False None,
      Field_new ASSIGNED_TO (Alias ''link'') (Value PNone) True None]"
  by (simp add: http_network_def base_network_def)

lemma http_link_fields:
  "map snd (http_link uuid1 adapters) =
     [Field_new ID NoAlias (Producer (new_id uuid1)) False None,
      Field_new NAME (Alias ''id'') (Value PNone) True None,
      Field_new MAC_ADDRESS (Alias ''ethernet_mac_address'') (Value PNone) True
        (Some (on_mac_not_found (Field_new NAME (Alias ''id'') (Value PNone) True None) adapters)),
      Field_new TYPE' NoAlias (Value PHY) False None,
      Field_new MTU NoAlias (Value PNone) False None,
      Field_new BOND_LINKS NoAlias (Value PNone) False None,
      Field_new BOND_MODE NoAlias (Value PNone) False None,
      Field_new VLAN_ID NoAlias (Value PNone) False None,
      Field_new VLAN_LINK NoAlias (Value PNone) False None]"
  by (simp add: http_link_def base_link_def Let_def)

lemma dangling_resolves:
  "get_fields (map snd (http_network counter_uuid1)) dangling_network 0 =
     (Inr (Some [(ID, PStr ''n1''), (IP_ADDRESS, PStr ''10.0.0.5''), (VERSION, PStr ''ipv4''),
                 (NETMASK, PStr ''255.255.255.0''), (GATEWAY, PStr ''10.0.0.1''),
                 (BROADCAST, PNone), (DNS, PList []), (ASSIGNED_TO, PStr ''eth9'')]), 0)"
  by (simp add: http_network_fields get_fields_def get_field_def aliases_def Field_new_def
        dangling_network_def)

lemma one_link_resolves:
  "get_fields (map snd (http_link counter_uuid1 []))
      [(ID, PStr ''eth0''), (''ethernet_mac_address'', PStr ''aa:bb:cc:dd:ee:01'')] 0 =
     (Inr (Some [(ID, PStr ''eth0''), (NAME, PStr ''eth0''),
                 (MAC_ADDRESS, PStr ''aa:bb:cc:dd:ee:01''), (TYPE', PHY), (MTU, PNone),
                 (BOND_LINKS, PNone), (BOND_MODE, PNone), (VLAN_ID, PNone),
                 (VLAN_LINK, PNone)]), 0)"
  by (simp add: http_link_fields get_fields_def get_field_def aliases_def Field_new_def)

text \<open>
  C3. \<open>_digest\<close> of the HTTP builder on a document with no link and one network that
  refers to the link \<open>eth9\<close>: the network resolves, and \<open>_invalid_links.pop(key, None)\<close>
  raises (\<open>TypeError\<close> on the list of Python 2, \<open>AttributeError\<close> on the view of
  Python 3). On a document with one link that resolves, \<open>link[VERSION]\<close> raises
  \<open>KeyError\<close>, no link record having that key.
\<close>

theorem http_digest_crashes_on_resolved_records:
  "fst (http_digest Py2 counter_uuid1 [] http_dangling) = Inl TypeError \<and>
   fst (http_digest Py3 counter_uuid1 [] http_dangling) = Inl AttributeError \<and>
   fst (http_digest Py2 counter_uuid1 [] http_one_link) = Inl KeyError \<and>
   fst (http_digest Py3 counter_uuid1 [] http_one_link) = Inl KeyError"
  by (simp add: http_digest_def http_dangling_def http_one_link_def digest_raw_networks_def
        dangling_resolves one_link_resolves dict_keys_def)

subsection \<open>The references built by the network digest\<close>

text \<open>For stating properties: the attribute of a named tuple and the item of a record
  (\<open>None\<close> where the code would raise).\<close>

text \<open>No two values of the list are equal (\<open>==\<close>).\<close>

lemma py_eq_refl: "py_eq a a" by (simp add: py_eq_def)
lemma py_eq_sym: "py_eq a b \<Longrightarrow> py_eq b a" by (simp add: py_eq_def)
lemma py_eq_trans: "py_eq a b \<Longrightarrow> py_eq b c \<Longrightarrow> py_eq a c" by (simp add: py_eq_def)

lemma dict_lookup_store:
  "dict_lookup (dict_store d k v) k' = (if py_eq k k' then Some v else dict_lookup d k')"
  by (induction d k v rule: dict_store.induct) (auto simp: py_eq_def)

lemma bind_fields_map_of:
  "bind_fields fs kvs = Some bound \<Longrightarrow> a \<in> set fs \<Longrightarrow> map_of bound a = map_of kvs a \<and> map_of kvs a \<noteq> None"
  by (induction fs arbitrary: bound) (auto split: option.splits if_splits)

lemma Network_new_attr:
  assumes "Network_new r = Inr n" and "a \<in> set Network_fields"
  shows "py_getattr n a = Inr (item_of r a)" and "attr_of n a = item_of r a"
proof -
  from assms(1) obtain kvs bound where r: "r = PDict kvs" and b: "bind_fields Network_fields kvs = Some bound"
    and n: "n = PNamed ''Network'' bound"
    by (auto simp: Network_new_def namedtuple_new_def split: pyval.splits if_splits option.splits)
  from bind_fields_map_of[OF b assms(2)] obtain x where "map_of kvs a = Some x" "map_of bound a = Some x"
    by auto
  then show "py_getattr n a = Inr (item_of r a)" using r n by (simp add: item_of_def)
  then show "attr_of n a = item_of r a" by (simp add: attr_of_def)
qed

text \<open>What the loop of \<open>_digest_networks\<close> leaves under a key: in \<open>networks\<close> the
  tuple of the last raw record with that id; in \<open>references\<close> the ids of the raw records
  assigned to that key, in the order of the records, after what the bucket held.\<close>

lemma find_snoc:
  "find P (xs @ [y]) = (case find P xs of Some x \<Rightarrow> Some x | None \<Rightarrow> if P y then Some y else None)"
  by (induction xs) auto

lemma dict_lookup_py_eq: "py_eq a b \<Longrightarrow> dict_lookup d a = dict_lookup d b"
  by (induction d) (auto simp: py_eq_def)

lemma digest_networks_loop_lookup:
  "digest_networks_loop raws networks references = Inr (networks', references') \<Longrightarrow>
   (\<forall>k. dict_lookup networks' k = networks_after raws networks k) \<and>
   (\<forall>k. dict_lookup references' k = references_after raws references k) \<and>
   (\<forall>r \<in> set raws. \<exists>n. Network_new r = Inr n)"
proof (induction raws arbitrary: networks references)
  case Nil
  then show ?case by (simp add: networks_after_def references_after_def bucket_of_def)
next
  case (Cons r raws)
  from Cons.prems obtain n where n: "Network_new r = Inr n"
    by (auto split: sum.splits)
  have i: "py_getattr n ID = Inr (item_of r ID)"
    and a: "py_getattr n ASSIGNED_TO = Inr (item_of r ASSIGNED_TO)"
    using Network_new_attr(1)[OF n] by (simp_all add: Network_fields_def)
  from Cons.prems n i a obtain networks1 references1 where
    n1: "dict_setitem networks (item_of r ID) n = Inr networks1" and
    r1: "setdefault_append references (item_of r ASSIGNED_TO) (item_of r ID) = Inr references1" and
    rest: "digest_networks_loop raws networks1 references1 = Inr (networks', references')"
    by (auto split: sum.splits)
  have N1: "networks1 = dict_store networks (item_of r ID) n"
    using n1 by (auto simp: dict_setitem_def split: if_splits)
  have R1: "dict_lookup references1 k =
      (if py_eq (item_of r ASSIGNED_TO) k
       then Some ((case dict_lookup references k of None \<Rightarrow> [] | Some b \<Rightarrow> b) @ [item_of r ID])
       else dict_lookup references k)" for k
    using r1 dict_lookup_py_eq[of "item_of r ASSIGNED_TO" k references]
    by (auto simp: setdefault_append_def dict_lookup_store split: if_splits option.splits)
  note IH = Cons.IH[OF rest]
  have "dict_lookup networks' k = networks_after (r # raws) networks k" for k
    using IH n by (auto simp: networks_after_def N1 dict_lookup_store find_snoc split: option.splits)
  moreover have "dict_lookup references' k = references_after (r # raws) references k" for k
    using IH by (auto simp: references_after_def bucket_of_def R1 split: option.splits)
  moreover have "\<forall>r' \<in> set (r # raws). \<exists>n. Network_new r' = Inr n"
    using IH n by simp
  ultimately show ?case by blast
qed

lemma find_SomeD: "find P xs = Some x \<Longrightarrow> x \<in> set xs \<and> P x"
  by (induction xs) (auto split: if_splits)

lemma digest_networks_lookup:
  assumes "digest_networks buf = Inr (networks, references)"
  shows "dict_lookup networks k = networks_after (buffer_iter buf) [] k"
    and "dict_lookup references k = references_after (buffer_iter buf) [] k"
    and "r \<in> set (buffer_iter buf) \<Longrightarrow> \<exists>n. Network_new r = Inr n"
  using digest_networks_loop_lookup[OF assms[unfolded digest_networks_def]] by auto

lemma bucket_lookup:
  assumes "digest_networks buf = Inr (networks, references)"
    and "dict_lookup references k = Some bucket"
  shows "bucket = bucket_of (buffer_iter buf) k"
  using assms(2) digest_networks_lookup(2)[OF assms(1), of k]
  by (auto simp: references_after_def split: if_splits)

lemma network_lookup:
  assumes "digest_networks buf = Inr (networks, references)"
    and "dict_lookup networks i = Some n"
  shows "\<exists>r \<in> set (buffer_iter buf). Network_new r = Inr n \<and> py_eq (item_of r ID) i"
proof -
  from assms(2) digest_networks_lookup(1)[OF assms(1), of i]
  obtain r where f: "find (\<lambda>r. py_eq (item_of r ID) i) (rev (buffer_iter buf)) = Some r"
    and n: "Network_new r = Inr n"
    by (auto simp: networks_after_def split: option.splits sum.splits)
  from find_SomeD[OF f] have "r \<in> set (buffer_iter buf)" "py_eq (item_of r ID) i"
    by simp_all
  with n show ?thesis by blast
qed

lemma bucket_ids_are_networks:
  assumes "digest_networks buf = Inr (networks, references)"
    and "i \<in> set (bucket_of (buffer_iter buf) k)"
  shows "dict_lookup networks i \<noteq> None"
proof -
  from assms(2) obtain r where r: "r \<in> set (buffer_iter buf)" "item_of r ID = i"
    by (auto simp: bucket_of_def)
  then have "\<exists>x \<in> set (rev (buffer_iter buf)). py_eq (item_of x ID) i"
    by (auto simp: py_eq_def)
  then obtain r' where f: "find (\<lambda>r. py_eq (item_of r ID) i) (rev (buffer_iter buf)) = Some r'"
    by (cases "find (\<lambda>r. py_eq (item_of r ID) i) (rev (buffer_iter buf))")
       (auto simp: find_None_iff)
  then have "r' \<in> set (buffer_iter buf)" using find_SomeD[of _ "rev (buffer_iter buf)" r'] by simp
  from digest_networks_lookup(3)[OF assms(1) this] obtain n where "Network_new r' = Inr n" by blast
  with f show ?thesis using digest_networks_lookup(1)[OF assms(1), of i]
    by (simp add: networks_after_def)
qed

lemma bucket_ids_assigned:
  assumes "digest_networks buf = Inr (networks, references)"
    and d: "py_distinct (map (\<lambda>r. item_of r ID) (buffer_iter buf))"
    and "i \<in> set (bucket_of (buffer_iter buf) k)"
  shows "\<exists>n. dict_lookup networks i = Some n \<and> py_eq (attr_of n ASSIGNED_TO) k"
proof -
  from assms(3) obtain r where r: "r \<in> set (buffer_iter buf)" "item_of r ID = i"
    "py_eq (item_of r ASSIGNED_TO) k"
    by (auto simp: bucket_of_def)
  from bucket_ids_are_networks[OF assms(1,3)] obtain n where n: "dict_lookup networks i = Some n"
    by auto
  from network_lookup[OF assms(1) n] obtain r' where r': "r' \<in> set (buffer_iter buf)"
    "Network_new r' = Inr n" "py_eq (item_of r' ID) i" by blast
  have "inj_on (\<lambda>r. canon (item_of r ID)) (set (buffer_iter buf))"
    using d by (simp add: py_distinct_def distinct_map comp_def)
  then have "r' = r" using r r' by (auto simp: py_eq_def dest: inj_onD)
  then have "attr_of n ASSIGNED_TO = item_of r ASSIGNED_TO"
    using Network_new_attr(2)[OF r'(2), of ASSIGNED_TO] by (simp add: Network_fields_def)
  with n r(3) show ?thesis by simp
qed

lemma bucket_distinct:
  assumes "py_distinct (map (\<lambda>r. item_of r ID) raws)"
  shows "py_distinct (bucket_of raws k)"
  using assms by (simp add: py_distinct_def bucket_of_def comp_def distinct_map_filter)

lemma network_in_its_bucket:
  assumes "digest_networks buf = Inr (networks, references)"
    and "dict_lookup networks i = Some n"
  shows "\<exists>j \<in> set (bucket_of (buffer_iter buf) (attr_of n ASSIGNED_TO)). py_eq j i"
proof -
  from network_lookup[OF assms] obtain r where r: "r \<in> set (buffer_iter buf)"
    "Network_new r = Inr n" "py_eq (item_of r ID) i" by blast
  have "attr_of n ASSIGNED_TO = item_of r ASSIGNED_TO"
    using Network_new_attr(2)[OF r(2), of ASSIGNED_TO] by (simp add: Network_fields_def)
  then have "item_of r ID \<in> set (bucket_of (buffer_iter buf) (attr_of n ASSIGNED_TO))"
    using r(1) by (auto simp: bucket_of_def py_eq_def)
  with r(3) show ?thesis by blast
qed

text \<open>
  C10, as amended. When \<open>_digest_networks\<close> returns: every bucket of \<open>references\<close> is
  the list of the ids of the raw records assigned to its key, in the order the records
  were digested, and each of these ids is a key of \<open>networks\<close>; every network of
  \<open>networks\<close> has its id in the bucket keyed by its \<open>assigned_to\<close>; and when the raw
  records have pairwise different ids, a bucket holds no id twice and every id in it
  is the id of a network whose \<open>assigned_to\<close> is the key of that bucket.
\<close>

theorem digest_networks_references:
  assumes "digest_networks buf = Inr (networks, references)"
  shows "(\<forall>k bucket. dict_lookup references k = Some bucket \<longrightarrow>
            bucket = bucket_of (buffer_iter buf) k \<and>
            (\<forall>i \<in> set bucket. dict_lookup networks i \<noteq> None)) \<and>
         (\<forall>i n. dict_lookup networks i = Some n \<longrightarrow>
            (\<exists>bucket. dict_lookup references (attr_of n ASSIGNED_TO) = Some bucket \<and>
               (\<exists>j \<in> set bucket. py_eq j i))) \<and>
         (py_distinct (map (\<lambda>r. item_of r ID) (buffer_iter buf)) \<longrightarrow>
            (\<forall>k bucket. dict_lookup references k = Some bucket \<longrightarrow>
               py_distinct bucket \<and>
               (\<forall>i \<in> set bucket. \<exists>n. dict_lookup networks i = Some n \<and>
                                      py_eq (attr_of n ASSIGNED_TO) k)))"
proof (intro conjI allI impI ballI)
  fix k bucket assume b: "dict_lookup references k = Some bucket"
  show eq: "bucket = bucket_of (buffer_iter buf) k" by (rule bucket_lookup[OF assms b])
  fix i assume "i \<in> set bucket"
  then show "dict_lookup networks i \<noteq> None"
    using bucket_ids_are_networks[OF assms, of i k] eq by simp
next
  fix i n assume n: "dict_lookup networks i = Some n"
  from network_in_its_bucket[OF assms n] obtain j where
    j: "j \<in> set (bucket_of (buffer_iter buf) (attr_of n ASSIGNED_TO))" "py_eq j i" by blast
  then have "bucket_of (buffer_iter buf) (attr_of n ASSIGNED_TO) \<noteq> []" by auto
  then have "dict_lookup references (attr_of n ASSIGNED_TO) =
             Some (bucket_of (buffer_iter buf) (attr_of n ASSIGNED_TO))"
    using digest_networks_lookup(2)[OF assms, of "attr_of n ASSIGNED_TO"]
    by (simp add: references_after_def)
  with j show "\<exists>bucket. dict_lookup references (attr_of n ASSIGNED_TO) = Some bucket \<and>
               (\<exists>j \<in> set bucket. py_eq j i)" by blast
next
  fix k bucket
  assume d: "py_distinct (map (\<lambda>r. item_of r ID) (buffer_iter buf))"
    and b: "dict_lookup references k = Some bucket"
  have eq: "bucket = bucket_of (buffer_iter buf) k" by (rule bucket_lookup[OF assms b])
  show "py_distinct bucket" unfolding eq by (rule bucket_distinct[OF d])
  fix i assume "i \<in> set bucket"
  then show "\<exists>n. dict_lookup networks i = Some n \<and> py_eq (attr_of n ASSIGNED_TO) k"
    using bucket_ids_assigned[OF assms d, of i k] eq by simp
qed

text \<open>A raw network record with the eight fields of \<open>Network\<close>, and its tuple.\<close>

lemma Network_new_of: "Network_new (raw_network_of i l) = Inr (Network_of i l)"
  by (simp add: Network_new_def namedtuple_new_def Network_fields_def raw_network_of_def Network_of_def)

lemma Network_of_attrs:
  "py_getattr (Network_of i l) ID = Inr (PStr i)"
  "py_getattr (Network_of i l) ASSIGNED_TO = Inr (PStr l)"
  "py_getattr (Network_of i l) VERSION = Inr (PInt 4)"
  "py_getattr (Network_of i l) IP_ADDRESS = Inr (PStr ''10.0.0.5'')"
  "py_getattr (Network_of i l) NETMASK = Inr (PStr ''255.255.255.0'')"
  "py_getattr (Network_of i l) GATEWAY = Inr (PStr ''10.0.0.1'')"
  "py_getattr (Network_of i l) BROADCAST = Inr (PStr ''10.0.0.255'')"
  "py_getattr (Network_of i l) DNS = Inr (PList [])"
  by (simp_all add: Network_of_def)

lemma py_eq_PStr: "py_eq (PStr a) (PStr b) = (a = b)"
  by (simp add: py_eq_def)

lemma digest_same_id:
  "digest_networks (BufList [raw_network_of ''n1'' ''l1'', raw_network_of ''n1'' ''l2'']) =
     Inr ([(PStr ''n1'', Network_of ''n1'' ''l2'')],
          [(PStr ''l1'', [PStr ''n1'']), (PStr ''l2'', [PStr ''n1''])])"
  by (simp add: digest_networks_def Network_new_of Network_of_attrs dict_setitem_def
        setdefault_append_def py_eq_PStr)

text \<open>
  C10 as stated fails when two raw records share an id: the second record replaces the
  first in \<open>networks\<close>, and the id stays in the bucket of the first record's link. Here
  \<open>n1\<close> is in the bucket of \<open>l1\<close> while the network \<open>n1\<close> is assigned to \<open>l2\<close>.
\<close>

theorem bucket_of_other_link_counterexample:
  "digest_networks (BufList [raw_network_of ''n1'' ''l1'', raw_network_of ''n1'' ''l2'']) =
     Inr ([(PStr ''n1'', Network_of ''n1'' ''l2'')],
          [(PStr ''l1'', [PStr ''n1'']), (PStr ''l2'', [PStr ''n1''])]) \<and>
   dict_lookup [(PStr ''l1'', [PStr ''n1'']), (PStr ''l2'', [PStr ''n1''])] (PStr ''l1'') =
     Some [PStr ''n1''] \<and>
   dict_lookup [(PStr ''n1'', Network_of ''n1'' ''l2'')] (PStr ''n1'') =
     Some (Network_of ''n1'' ''l2'') \<and>
   py_getattr (Network_of ''n1'' ''l2'') ASSIGNED_TO = Inr (PStr ''l2'') \<and>
   \<not> py_eq (PStr ''l2'') (PStr ''l1'')"
  by (simp add: digest_same_id Network_of_attrs py_eq_PStr)

lemma digest_two:
  "digest_networks (BufList [raw_network_of ''n1'' ''l1'', raw_network_of ''n2'' ''l1'']) =
     Inr ([(PStr ''n1'', Network_of ''n1'' ''l1''), (PStr ''n2'', Network_of ''n2'' ''l1'')],
          [(PStr ''l1'', [PStr ''n1'', PStr ''n2''])])"
  by (simp add: digest_networks_def Network_new_of Network_of_attrs dict_setitem_def
        setdefault_append_def py_eq_PStr)

text \<open>
  Two networks \<open>n1\<close> and \<open>n2\<close> assigned to the link \<open>l1\<close>.
\<close>

theorem digest_networks_references_witness:
  "digest_networks (BufList [raw_network_of ''n1'' ''l1'', raw_network_of ''n2'' ''l1'']) =
     Inr ([(PStr ''n1'', Network_of ''n1'' ''l1''), (PStr ''n2'', Network_of ''n2'' ''l1'')],
          [(PStr ''l1'', [PStr ''n1'', PStr ''n2''])]) \<and>
   py_distinct (map (\<lambda>r. item_of r ID)
     (buffer_iter (BufList [raw_network_of ''n1'' ''l1'', raw_network_of ''n2'' ''l1'']))) \<and>
   bucket_of (buffer_iter (BufList [raw_network_of ''n1'' ''l1'', raw_network_of ''n2'' ''l1'']))
     (PStr ''l1'') = [PStr ''n1'', PStr ''n2''] \<and>
   py_distinct [PStr ''n1'', PStr ''n2'']"
proof -
  note t = digest_networks_references [OF digest_two]
  have look: "dict_lookup [(PStr ''l1'', [PStr ''n1'', PStr ''n2''])] (PStr ''l1'') =
                Some [PStr ''n1'', PStr ''n2'']"
    by (simp add: py_eq_PStr)
  have d: "py_distinct (map (\<lambda>r. item_of r ID)
     (buffer_iter (BufList [raw_network_of ''n1'' ''l1'', raw_network_of ''n2'' ''l1''])))"
    by (simp add: py_distinct_def item_of_def raw_network_of_def)
  from t look have b: "[PStr ''n1'', PStr ''n2''] =
     bucket_of (buffer_iter (BufList [raw_network_of ''n1'' ''l1'', raw_network_of ''n2'' ''l1'']))
       (PStr ''l1'')"
    by blast
  from t d look have "py_distinct [PStr ''n1'', PStr ''n2'']" by blast
  with digest_two d b show ?thesis by simp
qed

subsection \<open>The plugin\<close>

text \<open>
  For stating what \<open>execute\<close> aggregates: the outcome of one turn of its loop (the
  link is fetched and configured), and the outcomes of the turns for a list of link
  ids, each turn starting from the host state the one before left. An outcome is
  absorbed by the loop when it is a result or a \<open>NetworkDetailsError\<close>.
\<close>

lemma dict_get_error: "dict_get d k = Inl e \<Longrightarrow> e = TypeError"
  by (auto simp: dict_get_def split: if_splits option.splits)

lemma py_getattr_error: "py_getattr v a = Inl e \<Longrightarrow> e = AttributeError"
  by (cases v) (auto split: option.splits)

lemma configure_interface_NDE_mac:
  "configure_interface osutils nd link os = (Inl NetworkDetailsError, os') \<Longrightarrow>
   \<exists>mac. py_getattr link MAC_ADDRESS = Inr mac"
  by (auto simp: configure_interface_def split: sum.splits dest: py_getattr_error)

lemma execute_loop_absorbs:
  assumes "\<forall>r \<in> set (outcomes osutils nd ids os). absorbed r"
  shows "\<exists>log' os'.
           execute_loop osutils nd ids reboot configured log os =
             (Inr (reboot \<or> Inr True \<in> set (outcomes osutils nd ids os),
                   configured \<or> (\<exists>b. Inr b \<in> set (outcomes osutils nd ids os))),
              log @ log', os') \<and>
           length (filter (\<lambda>l. l = LOG_exception NetworkDetailsError) log') =
             length (filter (\<lambda>r. r = Inl NetworkDetailsError) (outcomes osutils nd ids os)) \<and>
           LOG_error_no_adapters \<notin> set log'"
  using assms
proof (induction ids arbitrary: reboot configured log os)
  case Nil
  then show ?case by simp
next
  case (Cons link_id rest)
  obtain r os1 where lo: "link_outcome osutils nd link_id os = (r, os1)" by (metis surj_pair)
  then have outs: "outcomes osutils nd (link_id # rest) os = r # outcomes osutils nd rest os1"
    by simp
  have abs_r: "absorbed r" and abs_rest: "\<forall>r \<in> set (outcomes osutils nd rest os1). absorbed r"
    using Cons.prems[unfolded outs] by simp_all
  show ?case
  proof (cases r)
    case (Inr b)
    then obtain link where link: "get_link nd link_id = Inr link"
      and ci: "configure_interface osutils nd link os = (Inr b, os1)"
      using lo by (auto simp: link_outcome_def split: sum.splits)
    from Cons.IH[OF abs_rest, of "reboot \<or> b" True log] obtain log' os' where
      "execute_loop osutils nd rest (reboot \<or> b) True log os1 =
         (Inr ((reboot \<or> b) \<or> Inr True \<in> set (outcomes osutils nd rest os1),
               True \<or> (\<exists>b. Inr b \<in> set (outcomes osutils nd rest os1))), log @ log', os')"
      "length (filter (\<lambda>l. l = LOG_exception NetworkDetailsError) log') =
             length (filter (\<lambda>r. r = Inl NetworkDetailsError) (outcomes osutils nd rest os1))"
      "LOG_error_no_adapters \<notin> set log'"
      by blast
    then show ?thesis using link ci Inr outs
      by (intro exI[of _ log'] exI[of _ os']) auto
  next
    case (Inl e)
    then have e: "e = NetworkDetailsError" using abs_r by (simp add: absorbed_def)
    from lo Inl e obtain link where link: "get_link nd link_id = Inr link"
      and ci: "configure_interface osutils nd link os = (Inl NetworkDetailsError, os1)"
      using dict_get_error[of "nd_links nd" link_id]
      by (auto simp: link_outcome_def get_link_def split: sum.splits)
    from configure_interface_NDE_mac[OF ci] obtain mac where mac: "py_getattr link MAC_ADDRESS = Inr mac"
      by blast
    let ?new = "[LOG_exception NetworkDetailsError, LOG_error_failed_to_configure mac]"
    from Cons.IH[OF abs_rest, of reboot configured "log @ ?new"] obtain log' os' where
      "execute_loop osutils nd rest reboot configured (log @ ?new) os1 =
         (Inr (reboot \<or> Inr True \<in> set (outcomes osutils nd rest os1),
               configured \<or> (\<exists>b. Inr b \<in> set (outcomes osutils nd rest os1))),
          (log @ ?new) @ log', os')"
      "length (filter (\<lambda>l. l = LOG_exception NetworkDetailsError) log') =
             length (filter (\<lambda>r. r = Inl NetworkDetailsError) (outcomes osutils nd rest os1))"
      "LOG_error_no_adapters \<notin> set log'"
      by blast
    then show ?thesis using link ci mac Inl e outs
      by (intro exI[of _ "?new @ log'"] exI[of _ os']) auto
  qed
qed

lemma execute_loop_propagates:
  assumes "outcomes osutils nd ids os = pre @ Inl e # post"
    and "\<forall>r \<in> set pre. absorbed r" and "e \<noteq> NetworkDetailsError"
  shows "fst (execute_loop osutils nd ids reboot configured log os) = Inl e"
  using assms(1,2)
proof (induction ids arbitrary: pre reboot configured log os)
  case Nil
  then show ?case by simp
next
  case (Cons link_id rest)
  obtain r os1 where lo: "link_outcome osutils nd link_id os = (r, os1)" by (metis surj_pair)
  then have outs: "r # outcomes osutils nd rest os1 = pre @ Inl e # post"
    using Cons.prems(1) by simp
  show ?case
  proof (cases pre)
    case Nil
    then have r: "r = Inl e" using outs by simp
    show ?thesis using lo r assms(3)
      by (auto simp: link_outcome_def split: sum.splits)
  next
    case (Cons p pre')
    then have p: "r = p" and rest: "outcomes osutils nd rest os1 = pre' @ Inl e # post"
      using outs by simp_all
    have abs_r: "absorbed r" and abs_pre: "\<forall>r \<in> set pre'. absorbed r"
      using Cons.prems(2) Cons p by simp_all
    note IH = Cons.IH[OF rest abs_pre]
    show ?thesis
    proof (cases r)
      case (Inr b)
      then obtain link where "get_link nd link_id = Inr link"
        "configure_interface osutils nd link os = (Inr b, os1)"
        using lo by (auto simp: link_outcome_def split: sum.splits)
      then show ?thesis using IH by simp
    next
      case (Inl e')
      then have e: "e' = NetworkDetailsError" using abs_r by (simp add: absorbed_def)
      from lo Inl e obtain link where link: "get_link nd link_id = Inr link"
        and ci: "configure_interface osutils nd link os = (Inl NetworkDetailsError, os1)"
        using dict_get_error[of "nd_links nd" link_id]
        by (auto simp: link_outcome_def get_link_def split: sum.splits)
      from configure_interface_NDE_mac[OF ci] obtain mac where "py_getattr link MAC_ADDRESS = Inr mac"
        by blast
      then show ?thesis using link ci IH by simp
    qed
  qed
qed

text \<open>A \<open>Link\<close> tuple, snapshots with three links and with one, and two hosts: one
  whose primitives succeed and ask for no reboot, one whose primitives raise.\<close>

lemma py_eq_PInt: "py_eq (PInt a) (PInt b) = (a = b)"
  by (simp add: py_eq_def)

lemma configure_interface_unsupported:
  "py_getattr link NAME = Inr name \<Longrightarrow> py_getattr link MAC_ADDRESS = Inr mac \<Longrightarrow>
   py_getattr link TYPE' = Inr link_type \<Longrightarrow> \<not> py_eq link_type PHY \<Longrightarrow>
   configure_interface osutils nd link os = (Inl NetworkDetailsError, os)"
  by (simp add: configure_interface_def)

text \<open>
  C2, as amended. The loop of \<open>execute\<close> catches \<open>NetworkDetailsError\<close> and nothing
  else. When every turn ends in a result or in a \<open>NetworkDetailsError\<close>, \<open>execute\<close>
  returns \<open>PLUGIN_EXECUTION_DONE\<close> with the disjunction of the results of the links that
  succeeded (false when none did), logs one exception per failed link, and logs that no
  adapter was configured exactly when no link succeeded. The first turn that ends in
  another exception ends \<open>execute\<close> with that exception. A link whose type is not
  \<open>phy\<close> fails with \<open>NetworkDetailsError\<close>, so it is among the failures caught.
\<close>

theorem execute_absorbs_network_details_errors:
  "((\<forall>r \<in> set (outcomes osutils nd (get_links nd) os). absorbed r) \<longrightarrow>
      (\<exists>log os'.
         execute osutils (Details nd) os =
           (Inr (PLUGIN_EXECUTION_DONE, Inr True \<in> set (outcomes osutils nd (get_links nd) os)),
            log, os') \<and>
         length (filter (\<lambda>l. l = LOG_exception NetworkDetailsError) log) =
           length (filter (\<lambda>r. r = Inl NetworkDetailsError)
                     (outcomes osutils nd (get_links nd) os)) \<and>
         (LOG_error_no_adapters \<in> set log \<longleftrightarrow>
            \<not> (\<exists>b. Inr b \<in> set (outcomes osutils nd (get_links nd) os))))) \<and>
   (\<forall>pre e post.
      outcomes osutils nd (get_links nd) os = pre @ Inl e # post \<and>
      (\<forall>r \<in> set pre. absorbed r) \<and> e \<noteq> NetworkDetailsError \<longrightarrow>
      fst (execute osutils (Details nd) os) = Inl e) \<and>
   (\<forall>link name mac link_type.
      py_getattr link NAME = Inr name \<and> py_getattr link MAC_ADDRESS = Inr mac \<and>
      py_getattr link TYPE' = Inr link_type \<and> \<not> py_eq link_type PHY \<longrightarrow>
      configure_interface osutils nd link os = (Inl NetworkDetailsError, os))"
proof (intro conjI impI allI)
  assume a: "\<forall>r \<in> set (outcomes osutils nd (get_links nd) os). absorbed r"
  from execute_loop_absorbs[OF a, of False False "[]"] obtain log' os' where
    l: "execute_loop osutils nd (get_links nd) False False [] os =
          (Inr (Inr True \<in> set (outcomes osutils nd (get_links nd) os),
                \<exists>b. Inr b \<in> set (outcomes osutils nd (get_links nd) os)), log', os')"
    and c: "length (filter (\<lambda>l. l = LOG_exception NetworkDetailsError) log') =
             length (filter (\<lambda>r. r = Inl NetworkDetailsError) (outcomes osutils nd (get_links nd) os))"
    and n: "LOG_error_no_adapters \<notin> set log'"
    by auto
  show "\<exists>log os'.
         execute osutils (Details nd) os =
           (Inr (PLUGIN_EXECUTION_DONE, Inr True \<in> set (outcomes osutils nd (get_links nd) os)),
            log, os') \<and>
         length (filter (\<lambda>l. l = LOG_exception NetworkDetailsError) log) =
           length (filter (\<lambda>r. r = Inl NetworkDetailsError)
                     (outcomes osutils nd (get_links nd) os)) \<and>
         (LOG_error_no_adapters \<in> set log \<longleftrightarrow>
            \<not> (\<exists>b. Inr b \<in> set (outcomes osutils nd (get_links nd) os)))"
    by (intro exI[of _ "if \<not> (\<exists>b. Inr b \<in> set (outcomes osutils nd (get_links nd) os))
                         then log' @ [LOG_error_no_adapters] else log'"] exI[of _ os'])
       (use l c n in \<open>auto simp: execute_def\<close>)
next
  fix pre e post
  assume "outcomes osutils nd (get_links nd) os = pre @ Inl e # post \<and>
      (\<forall>r \<in> set pre. absorbed r) \<and> e \<noteq> NetworkDetailsError"
  then have "fst (execute_loop osutils nd (get_links nd) False False [] os) = Inl e"
    using execute_loop_propagates[of osutils nd "get_links nd" os pre e post False False "[]"] by blast
  then show "fst (execute osutils (Details nd) os) = Inl e"
    by (auto simp: execute_def split: prod.splits sum.splits)
next
  fix link name mac link_type
  assume "py_getattr link NAME = Inr name \<and> py_getattr link MAC_ADDRESS = Inr mac \<and>
      py_getattr link TYPE' = Inr link_type \<and> \<not> py_eq link_type PHY"
  then show "configure_interface osutils nd link os = (Inl NetworkDetailsError, os)"
    by (simp add: configure_interface_unsupported)
qed

lemma Link_of_attrs:
  "py_getattr (Link_of i t m) ID = Inr (PStr i)"
  "py_getattr (Link_of i t m) NAME = Inr (PStr i)"
  "py_getattr (Link_of i t m) TYPE' = Inr (PStr t)"
  "py_getattr (Link_of i t m) MAC_ADDRESS = Inr (PStr m)"
  by (simp_all add: Link_of_def)

lemmas plugin_eval =
  link_outcome_def get_link_def get_links_def get_network_def get_networks_def dict_get_def
  dict_keys_def configure_interface_def configure_phy_def set_static_network_config_v4_def
  Link_of_attrs Network_of_attrs py_eq_PStr py_eq_PInt

text \<open>
  C2 as stated fails when the primitive of the host raises an exception that is not a
  \<open>NetworkDetailsError\<close>: with one physical link and one IPv4 network, \<open>execute\<close> ends
  with the exception of the primitive, and nothing is logged.
\<close>

theorem execute_os_exception_counterexample:
  "execute failing_os (Details one_link) () = (Inl CloudbaseInitException, [], ())"
  by (simp add: execute_def one_link_def failing_os_def plugin_eval)

lemma three_links_outcomes:
  "outcomes quiet_os three_links (get_links three_links) () =
     [Inr False, Inl NetworkDetailsError, Inr False]"
  by (simp add: three_links_def quiet_os_def plugin_eval)

text \<open>
  Three links of which the second is a bond, on the host whose primitives succeed; one
  link on the host whose primitives raise.
\<close>

theorem execute_absorbs_network_details_errors_witness:
  "outcomes quiet_os three_links (get_links three_links) () =
     [Inr False, Inl NetworkDetailsError, Inr False] \<and>
   fst (execute quiet_os (Details three_links) ()) = Inr (PLUGIN_EXECUTION_DONE, False) \<and>
   outcomes failing_os one_link (get_links one_link) () = [] @ Inl CloudbaseInitException # [] \<and>
   fst (execute failing_os (Details one_link) ()) = Inl CloudbaseInitException \<and>
   configure_interface quiet_os three_links (Link_of ''l2'' ''bond'' ''aa:bb:cc:dd:ee:02'') () =
     (Inl NetworkDetailsError, ())"
proof -
  note t = execute_absorbs_network_details_errors [of quiet_os three_links "()"]
  have a: "\<forall>r \<in> set (outcomes quiet_os three_links (get_links three_links) ()). absorbed r"
    by (simp add: three_links_outcomes absorbed_def)
  from t a have "fst (execute quiet_os (Details three_links) ()) =
      Inr (PLUGIN_EXECUTION_DONE, Inr True \<in> set (outcomes quiet_os three_links (get_links three_links) ()))"
    by auto
  then have e1: "fst (execute quiet_os (Details three_links) ()) = Inr (PLUGIN_EXECUTION_DONE, False)"
    by (simp add: three_links_outcomes)
  have o2: "outcomes failing_os one_link (get_links one_link) () = [] @ Inl CloudbaseInitException # []"
    by (simp add: one_link_def failing_os_def plugin_eval)
  from execute_absorbs_network_details_errors [of failing_os one_link "()"] o2
  have e2: "fst (execute failing_os (Details one_link) ()) = Inl CloudbaseInitException"
    by (metis empty_iff error.distinct(1) list.set(1))
  from t have e3: "configure_interface quiet_os three_links (Link_of ''l2'' ''bond'' ''aa:bb:cc:dd:ee:02'') () =
     (Inl NetworkDetailsError, ())"
    using Link_of_attrs[of "''l2''" "''bond''" "''aa:bb:cc:dd:ee:02''"]
    by (simp add: py_eq_PStr)
  from three_links_outcomes e1 o2 e2 e3 show ?thesis by simp
qed

subsection \<open>The interface digest\<close>

lemma split_on_not_Nil: "split_on sep s \<noteq> []"
  by (induction s) (auto split: list.splits)

lemma split_on_no_sep: "sep \<notin> set s \<Longrightarrow> split_on sep s = [s]"
  by (induction s) auto

lemma split_on_append:
  "sep \<notin> set a \<Longrightarrow> split_on sep (a @ sep # b) = a # split_on sep b"
  by (induction a) (auto simp: split_on_not_Nil split: list.splits)

lemma split_on_covers:
  "c \<in> set s \<Longrightarrow> c \<noteq> sep \<Longrightarrow> \<exists>p \<in> set (split_on sep s). c \<in> set p"
  by (induction s) (auto simp: split_on_not_Nil split: list.splits)

lemma ALL_ONES_mask: "ALL_ONES w = mask w"
  by (simp add: ALL_ONES_def mask_eq_exp_minus_1)

lemma hostmask_of_mask: "hostmask_of w p = mask (w - p)"
  by (simp add: hostmask_of_def mask_eq_exp_minus_1)

lemma ip_int_from_prefix_eq:
  "ip_int_from_prefix w p = netmask_of w p"
proof -
  have d: "drop_bit p (mask w :: int) = mask (w - p)"
    by (simp add: drop_bit_mask_eq)
  have z: "NOT (mask w :: int) AND mask (w - p) = 0"
    by (rule bit_eqI) (auto simp: bit_simps)
  have "(mask w :: int) XOR mask (w - p) = mask w - mask (w - p)"
    using disjunctive_diff_eq_and_not[OF z] disjunctive_and_not_eq_xor[OF z] by simp
  then show ?thesis
    unfolding ip_int_from_prefix_def ALL_ONES_mask d netmask_of_def
    by (simp add: mask_eq_exp_minus_1)
qed

lemma hostmask_eq: "ip_int_from_prefix w p XOR ALL_ONES w = hostmask_of w p"
proof -
  have "((mask w :: int) XOR mask (w - p)) XOR mask w = mask (w - p)"
    by (simp add: xor.commute xor.left_commute)
  then show ?thesis
    by (simp add: ip_int_from_prefix_def ALL_ONES_mask drop_bit_mask_eq hostmask_of_mask)
qed

lemma interface_of_standard:
  "interface_of w v to_string a p =
     \<lparr>if_broadcast_address = to_string ((a AND netmask_of w p) OR hostmask_of w p),
      if_netmask = to_string (netmask_of w p),
      if_ip = to_string a,
      if_version = v\<rparr>"
  using hostmask_eq[of w p] by (simp add: interface_of_def Let_def ip_int_from_prefix_eq)

lemma digit_of_slash [simp]: "digit_of CHR ''/'' = None" "digit_of CHR '':'' = None"
  "digit_of CHR ''.'' = None"
  by (simp_all add: digit_of_def)

lemma hex_digit_of_slash [simp]: "hex_digit_of CHR ''/'' = None" "hex_digit_of CHR '':'' = None"
  "hex_digit_of CHR ''.'' = None"
  by (simp_all add: hex_digit_of_def)

lemma parse_octet_digits:
  "parse_octet p = Some n \<Longrightarrow> c \<in> set p \<Longrightarrow> digit_of c \<noteq> None"
  by (auto simp: parse_octet_def list_all_iff split: if_splits)

lemma ipv4_chars:
  assumes "ipv4_int_from_string s = Some a" and "c \<in> set s"
  shows "c = CHR ''.'' \<or> digit_of c \<noteq> None"
proof (cases "c = CHR ''.''")
  case False
  with split_on_covers[OF assms(2)] obtain p where p: "p \<in> set (split_on CHR ''.'' s)" "c \<in> set p"
    by blast
  from assms(1) have "\<forall>q \<in> set (split_on CHR ''.'' s). parse_octet q \<noteq> None"
    by (auto simp: ipv4_int_from_string_def split: if_splits list.splits option.splits)
  with p obtain n where "parse_octet p = Some n" by auto
  from parse_octet_digits[OF this p(2)] show ?thesis by simp
qed simp

lemma ipv4_no_slash: "ipv4_int_from_string s = Some a \<Longrightarrow> CHR ''/'' \<notin> set s"
  using ipv4_chars[of s a "CHR ''/''"] by auto

lemma ipv4_no_colon: "CHR '':'' \<in> set s \<Longrightarrow> ipv4_int_from_string s = None"
  using ipv4_chars[of s _ "CHR '':''"] by (cases "ipv4_int_from_string s") auto

lemma ipv4_not_empty: "ipv4_int_from_string s = Some a \<Longrightarrow> s \<noteq> []"
  by (auto simp: ipv4_int_from_string_def)

lemma prefix_string_props:
  "prefix_from_prefix_string w s = Some p \<Longrightarrow> CHR ''/'' \<notin> set s \<and> s \<noteq> [] \<and> p \<le> w"
  by (auto simp: prefix_from_prefix_string_def list_all_iff split: if_splits option.splits)

lemma prefix_from_ip_int_le: "prefix_from_ip_int w i = Some p \<Longrightarrow> p \<le> w"
  by (auto simp: prefix_from_ip_int_def Let_def split: if_splits)

lemma make_netmask_v4_props:
  "make_netmask_v4 s = Some p \<Longrightarrow> CHR ''/'' \<notin> set s \<and> s \<noteq> [] \<and> p \<le> 32"
  by (auto simp: make_netmask_v4_def prefix_from_ip_string_def
           dest: prefix_string_props ipv4_no_slash ipv4_not_empty prefix_from_ip_int_le
           split: option.splits)

lemma make_netmask_v6_props:
  "make_netmask_v6 s = Some p \<Longrightarrow> CHR ''/'' \<notin> set s \<and> s \<noteq> [] \<and> p \<le> 128"
  by (auto simp: make_netmask_v6_def dest: prefix_string_props)

lemma IPv4Interface_bare:
  "ipv4_int_from_string ip = Some a \<Longrightarrow>
   IPv4Interface ip = Some (interface_of 32 4 ipv4_string_from_int a 32)"
  by (simp add: IPv4Interface_def split_on_no_sep ipv4_no_slash)

lemma IPv4Interface_mask:
  "ipv4_int_from_string ip = Some a \<Longrightarrow> make_netmask_v4 nm = Some p \<Longrightarrow>
   IPv4Interface (ip @ CHR ''/'' # nm) = Some (interface_of 32 4 ipv4_string_from_int a p)"
  by (simp add: IPv4Interface_def split_on_append split_on_no_sep ipv4_no_slash
        make_netmask_v4_props)

lemma shift_in_hextets_all:
  "shift_in_hextets acc ps = Some r \<Longrightarrow> p \<in> set ps \<Longrightarrow> parse_hextet p \<noteq> None"
  by (induction ps arbitrary: acc) (auto split: option.splits)

lemma empty_inner_single:
  assumes "empty_inner_parts parts = [k]"
  shows "1 \<le> k" "k < length parts - 1" "parts ! k = []"
proof -
  have "k \<in> set (empty_inner_parts parts)" using assms by simp
  then show "1 \<le> k" "k < length parts - 1" "parts ! k = []"
    by (auto simp: empty_inner_parts_def)
qed

lemma ipv6_parts_hextets:
  assumes "ipv6_int_from_parts parts = Some a" and "P \<in> set parts" and "P \<noteq> []"
  shows "parse_hextet P \<noteq> None"
proof (cases "empty_inner_parts parts")
  case Nil
  then have "shift_in_hextets 0 parts = Some a"
    using assms(1) by (auto simp: ipv6_int_from_parts_def split: if_splits)
  from shift_in_hextets_all[OF this assms(2)] show ?thesis .
next
  case (Cons k ks)
  then have one: "empty_inner_parts parts = [k]"
    using assms(1) by (cases ks) (auto simp: ipv6_int_from_parts_def split: if_splits)
  note k = empty_inner_single[OF one]
  define parts_hi where "parts_hi = (if hd parts = [] then k - 1 else k)"
  define parts_lo where "parts_lo = (if last parts = [] then length parts - k - 2
                              else length parts - k - 1)"
  from assms(1) one have hi0: "hd parts = [] \<Longrightarrow> parts_hi = 0"
    and lo0: "last parts = [] \<Longrightarrow> parts_lo = 0"
    by (auto simp: ipv6_int_from_parts_def Let_def parts_hi_def parts_lo_def split: if_splits)
  from assms(1) one obtain hi where
    hi: "shift_in_hextets 0 (take parts_hi parts) = Some hi" and
    lo: "shift_in_hextets (push_bit (16 * (8 - (parts_hi + parts_lo))) hi)
           (drop (length parts - parts_lo) parts) = Some a"
    by (auto simp: ipv6_int_from_parts_def Let_def parts_hi_def parts_lo_def
             split: if_splits option.splits)
  from assms(2) obtain j where j: "j < length parts" "parts ! j = P"
    by (auto simp: in_set_conv_nth)
  have ne: "parts \<noteq> []" using j by auto
  consider "j < parts_hi" | "length parts - parts_lo \<le> j" | "parts_hi \<le> j" "j < length parts - parts_lo"
    by linarith
  then show ?thesis
  proof cases
    case 1
    then have "P \<in> set (take parts_hi parts)"
      using j by (auto simp: in_set_conv_nth intro!: exI[of _ j])
    from shift_in_hextets_all[OF hi this] show ?thesis .
  next
    case 2
    then have "P \<in> set (drop (length parts - parts_lo) parts)"
      using j by (auto simp: in_set_conv_nth intro!: exI[of _ "j - (length parts - parts_lo)"])
    from shift_in_hextets_all[OF lo this] show ?thesis .
  next
    case 3
    have "parts ! j = []"
    proof (cases "hd parts = []")
      case True
      note h = this
      then have k1: "k = 1" using hi0 k(1) by (simp add: parts_hi_def)
      show ?thesis
      proof (cases "last parts = []")
        case True
        then have "length parts = k + 2" using lo0 k(2) by (simp add: parts_lo_def)
        then have "j = 0 \<or> j = 1 \<or> j = length parts - 1" using k1 j(1) by auto
        then show ?thesis using h True k(3) k1 ne by (auto simp: hd_conv_nth last_conv_nth)
      next
        case False
        then have "j = 0 \<or> j = 1" using 3 k1 k(2) h by (auto simp: parts_lo_def parts_hi_def)
        then show ?thesis using h k(3) k1 ne by (auto simp: hd_conv_nth)
      qed
    next
      case False
      note h = this
      show ?thesis
      proof (cases "last parts = []")
        case True
        then have "length parts = k + 2" using lo0 k(2) by (simp add: parts_lo_def)
        then have "j = k \<or> j = length parts - 1" using 3 h j(1) by (auto simp: parts_hi_def)
        then show ?thesis using True k(3) ne by (auto simp: last_conv_nth)
      next
        case False
        then have "j = k" using 3 h k(2) by (auto simp: parts_lo_def parts_hi_def)
        then show ?thesis using k(3) by simp
      qed
    qed
    then show ?thesis using j(2) assms(3) by simp
  qed
qed

lemma parse_hextet_chars: "parse_hextet p \<noteq> None \<Longrightarrow> c \<in> set p \<Longrightarrow> hex_digit_of c \<noteq> None"
  by (auto simp: parse_hextet_def list_all_iff split: if_splits)

lemma ipv6_has_colon: "ipv6_int_from_string s = Some a \<Longrightarrow> CHR '':'' \<in> set s"
proof (rule ccontr)
  assume a: "ipv6_int_from_string s = Some a" and "CHR '':'' \<notin> set s"
  then have "split_on CHR '':'' s = [s]" by (simp add: split_on_no_sep)
  with a show False by (simp add: ipv6_int_from_string_def split: if_splits)
qed

lemma ipv6_no_slash:
  assumes "ipv6_int_from_string s = Some a"
  shows "CHR ''/'' \<notin> set s"
proof
  assume "CHR ''/'' \<in> set s"
  from split_on_covers[OF this, of "CHR '':''"] obtain P where
    P: "P \<in> set (split_on CHR '':'' s)" "CHR ''/'' \<in> set P" by auto
  let ?parts = "split_on CHR '':'' s"
  have ne: "?parts \<noteq> []" by (rule split_on_not_Nil)
  show False
  proof (cases "CHR ''.'' \<in> set (last ?parts)")
    case True
    with assms obtain v4 where v4: "ipv4_int_from_string (last ?parts) = Some v4"
      and parts: "ipv6_int_from_parts (butlast ?parts @
                  [str_of_int 16 (drop_bit 16 v4 AND 65535), str_of_int 16 (v4 AND 65535)]) = Some a"
      by (auto simp: ipv6_int_from_string_def Let_def split: if_splits option.splits)
    from ipv4_no_slash[OF v4] P(2) have "P \<noteq> last ?parts" by auto
    with P(1) ne have "P \<in> set (butlast ?parts)"
      by (metis append_butlast_last_id in_set_conv_decomp rotate1.simps(2) set_ConsD set_rotate1)
    then have "P \<in> set (butlast ?parts @
                  [str_of_int 16 (drop_bit 16 v4 AND 65535), str_of_int 16 (v4 AND 65535)])"
      by simp
    moreover have "P \<noteq> []" using P(2) by auto
    ultimately have "parse_hextet P \<noteq> None" by (rule ipv6_parts_hextets[OF parts])
    from parse_hextet_chars[OF this P(2)] show False by simp
  next
    case False
    with assms have "ipv6_int_from_parts ?parts = Some a"
      by (auto simp: ipv6_int_from_string_def Let_def split: if_splits)
    moreover have "P \<noteq> []" using P(2) by auto
    ultimately have "parse_hextet P \<noteq> None" using P(1) ipv6_parts_hextets by blast
    from parse_hextet_chars[OF this P(2)] show False by simp
  qed
qed

lemma IPv6Interface_bare:
  assumes "ipv6_int_from_string ip = Some a"
  shows "ip_interface ip = Inr (interface_of 128 6 ipv6_string_from_int a 128)"
proof -
  have "IPv4Interface ip = None"
    using ipv6_no_slash[OF assms] ipv4_no_colon[OF ipv6_has_colon[OF assms]]
    by (simp add: IPv4Interface_def split_on_no_sep)
  moreover have "IPv6Interface ip = Some (interface_of 128 6 ipv6_string_from_int a 128)"
    using ipv6_no_slash[OF assms] assms by (simp add: IPv6Interface_def split_on_no_sep)
  ultimately show ?thesis by (simp add: ip_interface_def)
qed

lemma IPv6Interface_mask:
  assumes "ipv6_int_from_string ip = Some a" and "make_netmask_v6 nm = Some p"
  shows "ip_interface (ip @ CHR ''/'' # nm) = Inr (interface_of 128 6 ipv6_string_from_int a p)"
proof -
  have s: "split_on CHR ''/'' (ip @ CHR ''/'' # nm) = [ip, nm]"
    using ipv6_no_slash[OF assms(1)] make_netmask_v6_props[OF assms(2)]
    by (simp add: split_on_append split_on_no_sep)
  have "IPv4Interface (ip @ CHR ''/'' # nm) = None"
    using ipv4_no_colon[OF ipv6_has_colon[OF assms(1)]] by (simp add: IPv4Interface_def s)
  moreover have "IPv6Interface (ip @ CHR ''/'' # nm) = Some (interface_of 128 6 ipv6_string_from_int a p)"
    using assms by (simp add: IPv6Interface_def s)
  ultimately show ?thesis by (simp add: ip_interface_def)
qed

lemma IPv4_interface_bare:
  "ipv4_int_from_string ip = Some a \<Longrightarrow>
   ip_interface ip = Inr (interface_of 32 4 ipv4_string_from_int a 32)"
  by (simp add: ip_interface_def IPv4Interface_bare)

lemma IPv4_interface_mask:
  "ipv4_int_from_string ip = Some a \<Longrightarrow> make_netmask_v4 nm = Some p \<Longrightarrow>
   ip_interface (ip @ CHR ''/'' # nm) = Inr (interface_of 32 4 ipv4_string_from_int a p)"
  by (simp add: ip_interface_def IPv4Interface_mask)

lemma digest_interface_joined:
  assumes "\<forall>s. lib_ip_interface lib (PStr s) = ip_interface s"
    and "ip_interface (ip @ CHR ''/'' # nm) = Inr (interface_of w v to_string a p)"
    and "nm \<noteq> []"
  shows "digest_interface lib (PStr ip) (PStr nm) = Inr (standard_interface w v to_string a p)"
  using assms
  by (simp add: digest_interface_def py_str_def interface_of_standard standard_interface_def)

lemma digest_interface_plain:
  assumes "\<forall>s. lib_ip_interface lib (PStr s) = ip_interface s"
    and "ip_interface text = Inr (interface_of w v to_string a p)"
  shows "digest_interface lib (PStr text) PNone = Inr (standard_interface w v to_string a p)"
  using assms
  by (simp add: digest_interface_def py_str_def interface_of_standard standard_interface_def)

lemma example_values:
  "ipv4_int_from_string ''10.0.0.5'' = Some 167772165"
  "make_netmask_v4 ''255.255.255.0'' = Some 24"
  "standard_interface 32 4 ipv4_string_from_int 167772165 24 =
     [(BROADCAST, PStr ''10.0.0.255''), (NETMASK, PStr ''255.255.255.0''),
      (IP_ADDRESS, PStr ''10.0.0.5''), (VERSION, PInt 4)]"
  by code_simp+

text \<open>
  C7. With a library that reads text as \<open>ipaddress\<close> does, \<open>_digest_interface\<close> returns,
  for every address the library accepts and every prefix length or mask it accepts,
  exactly the four values of standard interface arithmetic: the netmask
  \<open>2 ^ w - 2 ^ (w - p)\<close> of the prefix length \<open>p\<close>, the broadcast address (the address
  with its host bits set), the address in normal form and the version, as text. That holds
  for IPv4 (\<open>w = 32\<close>) and IPv6 (\<open>w = 128\<close>), with the mask passed as \<open>netmask\<close> or
  written after a \<open>/\<close> in \<open>ip_address\<close>, and with no mask at all (then \<open>p = w\<close>). In
  particular \<open>10.0.0.5\<close> with \<open>255.255.255.0\<close> gives the broadcast address \<open>10.0.0.255\<close>,
  the netmask \<open>255.255.255.0\<close> and the version 4.
\<close>

theorem digest_interface_standard:
  assumes "\<forall>s. lib_ip_interface lib (PStr s) = ip_interface s"
  shows "(\<forall>ip nm a p.
            ipv4_int_from_string ip = Some a \<and> make_netmask_v4 nm = Some p \<longrightarrow>
              digest_interface lib (PStr ip) (PStr nm) =
                Inr (standard_interface 32 4 ipv4_string_from_int a p) \<and>
              digest_interface lib (PStr (ip @ ''/'' @ nm)) PNone =
                Inr (standard_interface 32 4 ipv4_string_from_int a p)) \<and>
         (\<forall>ip a.
            ipv4_int_from_string ip = Some a \<longrightarrow>
              digest_interface lib (PStr ip) PNone =
                Inr (standard_interface 32 4 ipv4_string_from_int a 32)) \<and>
         (\<forall>ip nm a p.
            ipv6_int_from_string ip = Some a \<and> make_netmask_v6 nm = Some p \<longrightarrow>
              digest_interface lib (PStr ip) (PStr nm) =
                Inr (standard_interface 128 6 ipv6_string_from_int a p) \<and>
              digest_interface lib (PStr (ip @ ''/'' @ nm)) PNone =
                Inr (standard_interface 128 6 ipv6_string_from_int a p)) \<and>
         (\<forall>ip a.
            ipv6_int_from_string ip = Some a \<longrightarrow>
              digest_interface lib (PStr ip) PNone =
                Inr (standard_interface 128 6 ipv6_string_from_int a 128)) \<and>
         digest_interface lib (PStr ''10.0.0.5'') (PStr ''255.255.255.0'') =
           Inr [(BROADCAST, PStr ''10.0.0.255''), (NETMASK, PStr ''255.255.255.0''),
                (IP_ADDRESS, PStr ''10.0.0.5''), (VERSION, PInt 4)]"
proof -
  have v4: "digest_interface lib (PStr ip) (PStr nm) =
                Inr (standard_interface 32 4 ipv4_string_from_int a p) \<and>
              digest_interface lib (PStr (ip @ ''/'' @ nm)) PNone =
                Inr (standard_interface 32 4 ipv4_string_from_int a p)"
    if "ipv4_int_from_string ip = Some a" "make_netmask_v4 nm = Some p" for ip nm a p
    using digest_interface_joined[OF assms IPv4_interface_mask[OF that]]
      digest_interface_plain[OF assms IPv4_interface_mask[OF that]]
      make_netmask_v4_props[OF that(2)] by simp
  have v4b: "digest_interface lib (PStr ip) PNone =
                Inr (standard_interface 32 4 ipv4_string_from_int a 32)"
    if "ipv4_int_from_string ip = Some a" for ip a
    using digest_interface_plain[OF assms IPv4_interface_bare[OF that]] by simp
  have v6: "digest_interface lib (PStr ip) (PStr nm) =
                Inr (standard_interface 128 6 ipv6_string_from_int a p) \<and>
              digest_interface lib (PStr (ip @ ''/'' @ nm)) PNone =
                Inr (standard_interface 128 6 ipv6_string_from_int a p)"
    if "ipv6_int_from_string ip = Some a" "make_netmask_v6 nm = Some p" for ip nm a p
    using digest_interface_joined[OF assms IPv6Interface_mask[OF that]]
      digest_interface_plain[OF assms IPv6Interface_mask[OF that]]
      make_netmask_v6_props[OF that(2)] by simp
  have v6b: "digest_interface lib (PStr ip) PNone =
                Inr (standard_interface 128 6 ipv6_string_from_int a 128)"
    if "ipv6_int_from_string ip = Some a" for ip a
    using digest_interface_plain[OF assms IPv6Interface_bare[OF that]] by simp
  have ex: "digest_interface lib (PStr ''10.0.0.5'') (PStr ''255.255.255.0'') =
           Inr [(BROADCAST, PStr ''10.0.0.255''), (NETMASK, PStr ''255.255.255.0''),
                (IP_ADDRESS, PStr ''10.0.0.5''), (VERSION, PInt 4)]"
    using v4[OF example_values(1,2)] by (simp only: example_values(3))
  from v4 v4b v6 v6b ex show ?thesis by blast
qed

text \<open>The modelled library itself meets the hypothesis; with it, the example of the spec
  and an IPv6 interface in address/prefix notation, whose address comes back in lower
  case and compressed.\<close>

lemma ipaddress_strings: "\<forall>s. lib_ip_interface ipaddress (PStr s) = ip_interface s"
  by (simp add: ipaddress_def)

lemma example_values_v6:
  "ipv6_int_from_string ''2001:DB8:0:0::1'' = Some 42540766411282592856903984951653826561"
  "make_netmask_v6 ''64'' = Some 64"
  "standard_interface 128 6 ipv6_string_from_int 42540766411282592856903984951653826561 64 =
     [(BROADCAST, PStr ''2001:db8::ffff:ffff:ffff:ffff''), (NETMASK, PStr ''ffff:ffff:ffff:ffff::''),
      (IP_ADDRESS, PStr ''2001:db8::1''), (VERSION, PInt 6)]"
  by code_simp+

theorem digest_interface_standard_witness:
  "digest_interface ipaddress (PStr ''10.0.0.5'') (PStr ''255.255.255.0'') =
     Inr [(BROADCAST, PStr ''10.0.0.255''), (NETMASK, PStr ''255.255.255.0''),
          (IP_ADDRESS, PStr ''10.0.0.5''), (VERSION, PInt 4)] \<and>
   digest_interface ipaddress (PStr (''2001:DB8:0:0::1'' @ ''/'' @ ''64'')) PNone =
     Inr [(BROADCAST, PStr ''2001:db8::ffff:ffff:ffff:ffff''), (NETMASK, PStr ''ffff:ffff:ffff:ffff::''),
          (IP_ADDRESS, PStr ''2001:db8::1''), (VERSION, PInt 6)]"
proof -
  note t = digest_interface_standard [OF ipaddress_strings]
  from t have "digest_interface ipaddress (PStr ''10.0.0.5'') (PStr ''255.255.255.0'') =
     Inr [(BROADCAST, PStr ''10.0.0.255''), (NETMASK, PStr ''255.255.255.0''),
          (IP_ADDRESS, PStr ''10.0.0.5''), (VERSION, PInt 4)]" by blast
  moreover from t example_values_v6(1,2)
  have "digest_interface ipaddress (PStr (''2001:DB8:0:0::1'' @ ''/'' @ ''64'')) PNone =
     Inr (standard_interface 128 6 ipv6_string_from_int 42540766411282592856903984951653826561 64)"
    by blast
  ultimately show ?thesis by (simp only: example_values_v6(3))
qed

text \<open>Every IPv4 prefix length written as a dotted netmask is read back as that prefix
  length, so that "the concrete netmask" of the result is the one that was passed.\<close>

lemma dotted_netmask_read_back:
  "list_all (\<lambda>p. make_netmask_v4 (ipv4_string_from_int (netmask_of 32 p)) = Some p) [0 ..< 33]"
  by code_simp

text \<open>An address already in address/prefix notation together with a separate netmask is
  not an interface: the joined text has two \<open>/\<close>, and the library refuses it.\<close>

lemma digest_interface_two_masks:
  "digest_interface ipaddress (PStr ''10.0.0.5/24'') (PStr ''255.255.255.0'') = Inl ValueError"
  by code_simp

end
